theory Spec2Isabelle
  imports Complex_Main
begin

section \<open>The canvas slideshow of Slideshow.ts\<close>

text \<open>
  A shallow embedding of the classes of \<^verbatim>\<open>src/Slideshow.ts\<close>: \<^verbatim>\<open>ControlElement\<close>,
  \<^verbatim>\<open>ControlsManager\<close> and the playback part of \<^verbatim>\<open>Slideshow\<close>. Every method becomes a
  function from the object (and the host state it touches) to the updated object.

  JavaScript numbers are modelled by \<^typ>\<open>real\<close> where the code computes with sizes,
  offsets and opacities, and by \<^typ>\<open>int\<close> for the slide counter, which only ever holds
  whole numbers. The arithmetic is exact; rounding of IEEE doubles is not modelled.

  The DOM side of a control (its class list and its label text) is written by the methods
  but never read back by them, and is left out.
\<close>

subsection \<open>ControlElement\<close>

record ControlElement =
  isEnabled :: bool
  state :: bool

text \<open>The constructor: the action of a new control is inactive.\<close>

definition newControlElement :: "bool \<Rightarrow> ControlElement" where
  "newControlElement enabled = \<lparr>isEnabled = enabled, state = False\<rparr>"

definition getState :: "ControlElement \<Rightarrow> bool" where
  "getState c = state c"

definition isActive :: "ControlElement \<Rightarrow> bool" where
  "isActive c = isEnabled c"

text \<open>\<^verbatim>\<open>toggle()\<close>: the returned value and the updated element.\<close>

definition toggle :: "ControlElement \<Rightarrow> bool \<times> ControlElement" where
  "toggle c =
     (if isEnabled c then
        (if state c then (False, c\<lparr>state := False\<rparr>)
         else (True, c\<lparr>state := True\<rparr>))
      else (False, c))"

definition toggleEnabled :: "ControlElement \<Rightarrow> bool \<times> ControlElement" where
  "toggleEnabled c =
     (if isEnabled c then
        (let c1 = (if getState c then snd (toggle c) else c)
         in (False, c1\<lparr>isEnabled := False\<rparr>))
      else (True, c\<lparr>isEnabled := True\<rparr>))"

subsection \<open>ControlsManager\<close>

record ControlsManager =
  playButton :: ControlElement
  directionButton :: ControlElement
  randomButton :: ControlElement
  nextButton :: ControlElement
  previousButton :: ControlElement
  effectSelector :: ControlElement
  fullScreenButton :: ControlElement

definition isPlaying :: "ControlsManager \<Rightarrow> bool" where
  "isPlaying m = getState (playButton m)"

definition isRandom :: "ControlsManager \<Rightarrow> bool" where
  "isRandom m = getState (randomButton m)"

definition isReversed :: "ControlsManager \<Rightarrow> bool" where
  "isReversed m = getState (directionButton m)"

definition isFullScreen :: "ControlsManager \<Rightarrow> bool" where
  "isFullScreen m = getState (fullScreenButton m)"

definition togglePlay :: "ControlsManager \<Rightarrow> bool \<times> ControlsManager" where
  "togglePlay m =
     (let m1 = m\<lparr>playButton := snd (toggle (playButton m))\<rparr>;
          playing = isPlaying m1;
          randomEnabled = isActive (randomButton m1);
          directionEnabled = isActive (directionButton m1);
          m2 = (if playing then
                  (let a = (if \<not> randomEnabled
                            then m1\<lparr>randomButton := snd (toggleEnabled (randomButton m1))\<rparr>
                            else m1)
                   in (if \<not> directionEnabled
                       then a\<lparr>directionButton := snd (toggleEnabled (directionButton a))\<rparr>
                       else a))
                else
                  (let a = (if randomEnabled
                            then m1\<lparr>randomButton := snd (toggleEnabled (randomButton m1))\<rparr>
                            else m1)
                   in (if directionEnabled
                       then a\<lparr>directionButton := snd (toggleEnabled (directionButton a))\<rparr>
                       else a)))
      in (playing, m2))"

definition toggleDirection :: "ControlsManager \<Rightarrow> bool \<times> ControlsManager" where
  "toggleDirection m =
     (let m1 = m\<lparr>directionButton := snd (toggle (directionButton m))\<rparr>
      in (isReversed m1, m1))"

definition toggleRandom :: "ControlsManager \<Rightarrow> bool \<times> ControlsManager" where
  "toggleRandom m =
     (let random = fst (toggle (randomButton m));
          m1 = m\<lparr>randomButton := snd (toggle (randomButton m))\<rparr>;
          m2 = m1\<lparr>previousButton := snd (toggleEnabled (previousButton m1))\<rparr>;
          m3 = m2\<lparr>nextButton := snd (toggleEnabled (nextButton m2))\<rparr>;
          m4 = m3\<lparr>directionButton := snd (toggleEnabled (directionButton m3))\<rparr>
      in (random, m4))"

definition toggleFullScreen :: "ControlsManager \<Rightarrow> ControlsManager" where
  "toggleFullScreen m = m\<lparr>fullScreenButton := snd (toggle (fullScreenButton m))\<rparr>"

text \<open>
  \<^verbatim>\<open>setupControls\<close> builds every control with \<^verbatim>\<open>new ControlElement(elem, true, ...)\<close>.
\<close>

definition setupControls :: ControlsManager where
  "setupControls =
     \<lparr>playButton = newControlElement True,
      directionButton = newControlElement True,
      randomButton = newControlElement True,
      nextButton = newControlElement True,
      previousButton = newControlElement True,
      effectSelector = newControlElement True,
      fullScreenButton = newControlElement True\<rparr>"

subsection \<open>The drawing surface\<close>

text \<open>
  The 2D context as far as the slideshow uses it: the global opacity, the translation of
  the current transform, the stack that \<^verbatim>\<open>save()\<close> pushes and \<^verbatim>\<open>restore()\<close> pops, and a
  log of the calls made, newest first. A \<open>DrawImage\<close> entry records which image was
  painted, where the origin of the transform was, and under which opacity.
\<close>

datatype call =
    Save
  | Restore
  | ClearRect real real
  | Translate real real
  | DrawImage nat real real real

record Context =
  globalAlpha :: real
  tx :: real
  ty :: real
  saved :: "(real \<times> real \<times> real) list"
  calls :: "call list"

definition save :: "Context \<Rightarrow> Context" where
  "save c = c\<lparr>saved := (globalAlpha c, tx c, ty c) # saved c, calls := Save # calls c\<rparr>"

definition restore :: "Context \<Rightarrow> Context" where
  "restore c =
     (case saved c of
        [] \<Rightarrow> c\<lparr>calls := Restore # calls c\<rparr>
      | (a, x, y) # rest \<Rightarrow>
          c\<lparr>globalAlpha := a, tx := x, ty := y, saved := rest, calls := Restore # calls c\<rparr>)"

definition clearRect :: "real \<Rightarrow> real \<Rightarrow> Context \<Rightarrow> Context" where
  "clearRect w h c = c\<lparr>calls := ClearRect w h # calls c\<rparr>"

definition translate :: "real \<Rightarrow> real \<Rightarrow> Context \<Rightarrow> Context" where
  "translate dx dy c = c\<lparr>tx := tx c + dx, ty := ty c + dy, calls := Translate dx dy # calls c\<rparr>"

record Image =
  src :: string
  alt :: string
  broken :: bool

datatype error = TypeError | InvalidStateError

text \<open>
  \<^verbatim>\<open>this.images[i]\<close>: \<^verbatim>\<open>undefined\<close> outside the array.
\<close>

definition imageAt :: "Image list \<Rightarrow> int \<Rightarrow> Image option" where
  "imageAt imgs i = (if 0 \<le> i \<and> i < int (length imgs) then Some (imgs ! nat i) else None)"

text \<open>
  \<^verbatim>\<open>context.drawImage(this.images[i], 0, 0, w, h)\<close> raises when the argument is
  \<^verbatim>\<open>undefined\<close> and when the image failed to load.
\<close>

definition paint :: "nat \<Rightarrow> Context \<Rightarrow> Context" where
  "paint i c = c\<lparr>calls := DrawImage i (tx c) (ty c) (globalAlpha c) # calls c\<rparr>"

definition drawImage :: "Image list \<Rightarrow> int \<Rightarrow> Context \<Rightarrow> error + Context" where
  "drawImage imgs i c =
     (case imageAt imgs i of
        None \<Rightarrow> Inl TypeError
      | Some img \<Rightarrow> if broken img then Inl InvalidStateError else Inr (paint (nat i) c))"

subsection \<open>Slideshow: state, timers\<close>

text \<open>
  The function registered with \<^verbatim>\<open>setInterval\<close>, with the variables its closure captured.
  The slide effects increase their captured \<^verbatim>\<open>offset\<close> on every call, so it is part of
  the registered entry.
\<close>

datatype callback =
    Autoplay
  | RandomPlay bool
  | FadeOut int real real
  | FadeIn real real
  | HSlide int real real real bool
  | VSlide int real real real bool

datatype drawing =
    DrawSlideFn
  | FadeTransitionFn
  | HorizontalTransitionFn
  | VerticalTransitionFn

datatype logEntry =
    Logged string
  | CouldNotDraw int error

record Slideshow =
  images :: "Image list"
  globalImageWidth :: real
  globalImageHeight :: real
  interval :: nat
  imageCounter :: int
  ctx :: Context
  controls :: ControlsManager
  captions :: string
  drawingFunction :: drawing
  startX :: real
  timers :: "(nat \<times> real \<times> callback) list"
  nextHandle :: nat
  peakLive :: nat
  console :: "logEntry list"
  uncaught :: "error list"

definition playSpeed :: real where "playSpeed = 8000"
definition animationSpeed :: real where "animationSpeed = 33"
definition fadeStep :: real where "fadeStep = 0.008"

text \<open>
  The host's timer table: \<open>timers\<close> holds the live interval timers, each with its handle,
  period and function. \<^verbatim>\<open>setInterval\<close> hands out a fresh handle; \<^verbatim>\<open>clearInterval\<close> removes
  the entry with the given handle, if there is one. \<open>peakLive\<close> is instrumentation and is
  read by no function: the largest number of timers that were ever live together.
\<close>

definition setInterval :: "callback \<Rightarrow> real \<Rightarrow> Slideshow \<Rightarrow> nat \<times> Slideshow" where
  "setInterval f period s =
     (nextHandle s,
      s\<lparr>timers := timers s @ [(nextHandle s, period, f)], nextHandle := Suc (nextHandle s),
        peakLive := max (peakLive s) (Suc (length (timers s)))\<rparr>)"

definition clearInterval :: "nat \<Rightarrow> Slideshow \<Rightarrow> Slideshow" where
  "clearInterval h s = s\<lparr>timers := filter (\<lambda>e. fst e \<noteq> h) (timers s)\<rparr>"

text \<open>A running callback stores the new value of a captured variable.\<close>

definition setClosure :: "nat \<Rightarrow> callback \<Rightarrow> Slideshow \<Rightarrow> Slideshow" where
  "setClosure h f s =
     s\<lparr>timers := map (\<lambda>e. if fst e = h then (fst e, fst (snd e), f) else e) (timers s)\<rparr>"

text \<open>An exception that leaves a timer callback ends that call; the host reports it.\<close>

definition raise :: "error \<Rightarrow> Slideshow \<Rightarrow> Slideshow" where
  "raise e s = s\<lparr>uncaught := e # uncaught s\<rparr>"

subsection \<open>Slideshow: drawing\<close>

definition resumeSlideShow :: "Slideshow \<Rightarrow> Slideshow" where
  "resumeSlideShow s =
     (let s1 = clearInterval (interval s) s
      in case setInterval Autoplay playSpeed s1 of (h, s2) \<Rightarrow> s2\<lparr>interval := h\<rparr>)"

text \<open>
  The body of the \<^verbatim>\<open>try\<close> block of \<^verbatim>\<open>drawSlide\<close>: \<open>Inl\<close> is an exception, with the state
  reached when it was raised.
\<close>

definition drawSlideTry :: "real \<Rightarrow> real \<Rightarrow> Slideshow \<Rightarrow> (error \<times> Slideshow) + Slideshow" where
  "drawSlideTry width height s =
     (let s1 = s\<lparr>ctx := clearRect width height (ctx s)\<rparr>
      in case imageAt (images s1) (imageCounter s1) of
           None \<Rightarrow> Inl (TypeError, s1)
         | Some img \<Rightarrow>
             (let s2 = s1\<lparr>console := Logged (''Drawing '' @ src img) # console s1\<rparr>
              in case drawImage (images s2) (imageCounter s2) (ctx s2) of
                   Inl e \<Rightarrow> Inl (e, s2)
                 | Inr c \<Rightarrow> Inr (s2\<lparr>ctx := c, captions := alt img\<rparr>)))"

definition drawSlide :: "real \<Rightarrow> real \<Rightarrow> int \<Rightarrow> Slideshow \<Rightarrow> Slideshow" where
  "drawSlide width height slide s =
     (let s1 = s\<lparr>imageCounter := slide\<rparr>
      in case drawSlideTry width height s1 of
           Inr s2 \<Rightarrow> s2
         | Inl (ex, s2) \<Rightarrow> s2\<lparr>console := CouldNotDraw (imageCounter s2) ex # console s2\<rparr>)"

definition fadeTransition :: "int \<Rightarrow> real \<Rightarrow> real \<Rightarrow> Slideshow \<Rightarrow> Slideshow" where
  "fadeTransition nextCounter width height s =
     (let imgWidth = (if width < 0 then globalImageWidth s else width);
          imgHeight = (if height < 0 then globalImageHeight s else height);
          s1 = clearInterval (interval s) s
      in case setInterval (FadeOut nextCounter imgWidth imgHeight) animationSpeed s1 of
           (h, s2) \<Rightarrow> s2\<lparr>interval := h\<rparr>)"

definition fadeOutTick :: "int \<Rightarrow> real \<Rightarrow> real \<Rightarrow> Slideshow \<Rightarrow> Slideshow" where
  "fadeOutTick nextCounter imgWidth imgHeight s =
     (if globalAlpha (ctx s) \<ge> 0.1 then
        (let s1 = drawSlide imgWidth imgHeight (imageCounter s) s
         in s1\<lparr>ctx := (ctx s1)\<lparr>globalAlpha := globalAlpha (ctx s1) - fadeStep\<rparr>\<rparr>)
      else
        (let s1 = clearInterval (interval s) s;
             s2 = s1\<lparr>imageCounter := nextCounter\<rparr>
         in case setInterval (FadeIn imgWidth imgHeight) animationSpeed s2 of
              (h, s3) \<Rightarrow> s3\<lparr>interval := h\<rparr>))"

definition fadeInTick :: "real \<Rightarrow> real \<Rightarrow> Slideshow \<Rightarrow> Slideshow" where
  "fadeInTick imgWidth imgHeight s =
     (if globalAlpha (ctx s) < 1.0 then
        (let s1 = drawSlide imgWidth imgHeight (imageCounter s) s
         in s1\<lparr>ctx := (ctx s1)\<lparr>globalAlpha := globalAlpha (ctx s1) + fadeStep\<rparr>\<rparr>)
      else
        (let s1 = clearInterval (interval s) s
         in if isPlaying (controls s1) then resumeSlideShow s1 else s1))"

definition increment :: real where "increment = 3"

definition horizontalTransition :: "int \<Rightarrow> real \<Rightarrow> real \<Rightarrow> Slideshow \<Rightarrow> Slideshow" where
  "horizontalTransition nextCounter width height s =
     (let s1 = clearInterval (interval s) s;
          imgWidth = (if width < 0 then globalImageWidth s1 else width);
          imgHeight = (if height < 0 then globalImageHeight s1 else height);
          offset = 0;
          speed = animationSpeed / increment;
          forward = (imageCounter s1 < nextCounter);
          s2 = s1\<lparr>ctx := save (ctx s1)\<rparr>
      in case setInterval (HSlide nextCounter imgWidth imgHeight offset forward) speed s2 of
           (h, s3) \<Rightarrow> s3\<lparr>interval := h\<rparr>)"

text \<open>
  The end of a slide tick, common to both axes: the timer is cleared, the counter moves
  to the new slide, the caption is replaced, and autoplay resumes when playing.
\<close>

definition slideDone :: "int \<Rightarrow> Slideshow \<Rightarrow> Slideshow" where
  "slideDone nextCounter s =
     (let s1 = clearInterval (interval s) s;
          s2 = s1\<lparr>imageCounter := nextCounter\<rparr>
      in case imageAt (images s2) (imageCounter s2) of
           None \<Rightarrow> raise TypeError s2
         | Some img \<Rightarrow>
             (let s3 = s2\<lparr>captions := alt img\<rparr>
              in if isPlaying (controls s3) then resumeSlideShow s3 else s3))"

definition horizontalTick ::
  "nat \<Rightarrow> int \<Rightarrow> real \<Rightarrow> real \<Rightarrow> real \<Rightarrow> bool \<Rightarrow> Slideshow \<Rightarrow> Slideshow" where
  "horizontalTick self nextCounter imgWidth imgHeight offset forward s =
     (let negImgWidth = imgWidth * -1;
          limit = imgWidth + increment;
          c1 = save (ctx s);
          c2 = clearRect imgWidth imgHeight c1;
          c3 = (if forward then translate (-1 * offset) 0 c2 else translate offset 0 c2)
      in case drawImage (images s) (imageCounter s) c3 of
           Inl e \<Rightarrow> raise e (s\<lparr>ctx := c3\<rparr>)
         | Inr c4 \<Rightarrow>
             (let c5 = (if forward then translate imgWidth 0 c4 else translate negImgWidth 0 c4)
              in case drawImage (images s) nextCounter c5 of
                   Inl e \<Rightarrow> raise e (s\<lparr>ctx := c5\<rparr>)
                 | Inr c6 \<Rightarrow>
                     (let offset1 = offset + increment;
                          s1 = setClosure self
                                 (HSlide nextCounter imgWidth imgHeight offset1 forward)
                                 (s\<lparr>ctx := restore c6\<rparr>)
                      in if offset1 \<ge> limit then slideDone nextCounter s1 else s1)))"

definition verticalTransition :: "int \<Rightarrow> real \<Rightarrow> real \<Rightarrow> Slideshow \<Rightarrow> Slideshow" where
  "verticalTransition nextCounter width height s =
     (let s1 = clearInterval (interval s) s;
          imgWidth = (if width < 0 then globalImageWidth s1 else width);
          imgHeight = (if height < 0 then globalImageHeight s1 else height);
          offset = 0;
          speed = animationSpeed / increment;
          forward = (imageCounter s1 < nextCounter);
          s2 = s1\<lparr>ctx := save (ctx s1)\<rparr>
      in case setInterval (VSlide nextCounter imgWidth imgHeight offset forward) speed s2 of
           (h, s3) \<Rightarrow> s3\<lparr>interval := h\<rparr>)"

definition verticalTick ::
  "nat \<Rightarrow> int \<Rightarrow> real \<Rightarrow> real \<Rightarrow> real \<Rightarrow> bool \<Rightarrow> Slideshow \<Rightarrow> Slideshow" where
  "verticalTick self nextCounter imgWidth imgHeight offset forward s =
     (let negImgHeight = imgHeight * -1;
          limit = imgHeight + increment;
          c1 = save (ctx s);
          c2 = clearRect imgWidth imgHeight c1;
          c3 = (if forward then translate 0 offset c2 else translate 0 (-1 * offset) c2)
      in case drawImage (images s) (imageCounter s) c3 of
           Inl e \<Rightarrow> raise e (s\<lparr>ctx := c3\<rparr>)
         | Inr c4 \<Rightarrow>
             (let c5 = (if forward then translate 0 negImgHeight c4 else translate 0 imgHeight c4)
              in case drawImage (images s) nextCounter c5 of
                   Inl e \<Rightarrow> raise e (s\<lparr>ctx := c5\<rparr>)
                 | Inr c6 \<Rightarrow>
                     (let offset1 = offset + increment;
                          s1 = setClosure self
                                 (VSlide nextCounter imgWidth imgHeight offset1 forward)
                                 (s\<lparr>ctx := restore c6\<rparr>)
                      in if offset1 \<ge> limit then slideDone nextCounter s1 else s1)))"

text \<open>
  \<^verbatim>\<open>this.drawingFunction(slide)\<close>: the function that \<^verbatim>\<open>effectCallback\<close> (or the start-up
  code) stored. The effects are stored without a width and height, so these take their
  default \<^verbatim>\<open>-1\<close>.
\<close>

definition callDrawingFunction :: "int \<Rightarrow> Slideshow \<Rightarrow> Slideshow" where
  "callDrawingFunction slide s =
     (case drawingFunction s of
        DrawSlideFn \<Rightarrow> drawSlide (globalImageWidth s) (globalImageHeight s) slide s
      | FadeTransitionFn \<Rightarrow> fadeTransition slide (-1) (-1) s
      | HorizontalTransitionFn \<Rightarrow> horizontalTransition slide (-1) (-1) s
      | VerticalTransitionFn \<Rightarrow> verticalTransition slide (-1) (-1) s)"

text \<open>The local \<^verbatim>\<open>nextCounter\<close> of \<^verbatim>\<open>drawNextSlide\<close> and of \<^verbatim>\<open>drawPreviousSlide\<close>.\<close>

definition nextCounterOf :: "Slideshow \<Rightarrow> int" where
  "nextCounterOf s =
     (let nextCounter = imageCounter s + 1
      in if nextCounter \<ge> int (length (images s)) then 0 else nextCounter)"

definition previousCounterOf :: "Slideshow \<Rightarrow> int" where
  "previousCounterOf s =
     (let nextCounter = imageCounter s - 1
      in if nextCounter < 0 then int (length (images s)) - 1 else nextCounter)"

definition drawNextSlide :: "Slideshow \<Rightarrow> Slideshow" where
  "drawNextSlide s = callDrawingFunction (nextCounterOf s) s"

definition drawPreviousSlide :: "Slideshow \<Rightarrow> Slideshow" where
  "drawPreviousSlide s = callDrawingFunction (previousCounterOf s) s"

text \<open>\<open>r\<close> is the value that \<^verbatim>\<open>Math.random()\<close> returns in this call.\<close>

definition drawRandomSlide :: "real \<Rightarrow> Slideshow \<Rightarrow> Slideshow" where
  "drawRandomSlide r s = callDrawingFunction \<lfloor>real (length (images s)) * r\<rfloor> s"

subsection \<open>Slideshow: callbacks of the controls\<close>

definition playCallback :: "Slideshow \<Rightarrow> Slideshow" where
  "playCallback s =
     (case togglePlay (controls s) of
        (st, m) \<Rightarrow>
          (let s1 = s\<lparr>controls := m\<rparr>
           in if \<not> st then clearInterval (interval s1) s1 else resumeSlideShow s1))"

definition directionCallback :: "Slideshow \<Rightarrow> Slideshow" where
  "directionCallback s =
     (case toggleDirection (controls s) of
        (reversed, m) \<Rightarrow> resumeSlideShow (s\<lparr>controls := m\<rparr>))"

definition randomCallback :: "Slideshow \<Rightarrow> Slideshow" where
  "randomCallback s =
     (case toggleRandom (controls s) of
        (randomState, m) \<Rightarrow>
          (let s1 = s\<lparr>controls := m\<rparr>;
               s2 = clearInterval (interval s1) s1
           in case setInterval (RandomPlay randomState) playSpeed s2 of
                (h, s3) \<Rightarrow> s3\<lparr>interval := h\<rparr>))"

text \<open>
  The statements shared by the next and previous buttons, the arrow keys and the swipes:
  stop the timer and mark the show as paused if it is playing.
\<close>

definition stopForManual :: "Slideshow \<Rightarrow> Slideshow" where
  "stopForManual s =
     (let s1 = clearInterval (interval s) s
      in if isPlaying (controls s1)
         then s1\<lparr>controls := snd (togglePlay (controls s1))\<rparr>
         else s1)"

definition nextCallback :: "Slideshow \<Rightarrow> Slideshow" where
  "nextCallback s =
     (if \<not> isRandom (controls s) then drawNextSlide (stopForManual s) else s)"

definition previousCallback :: "Slideshow \<Rightarrow> Slideshow" where
  "previousCallback s =
     (if \<not> isRandom (controls s) then drawPreviousSlide (stopForManual s) else s)"

definition effectCallback :: "string \<Rightarrow> Slideshow \<Rightarrow> Slideshow" where
  "effectCallback option s =
     (let s1 = s\<lparr>console := Logged option # console s\<rparr>
      in if option = ''None'' then s1\<lparr>drawingFunction := DrawSlideFn\<rparr>
         else if option = ''fade'' then s1\<lparr>drawingFunction := FadeTransitionFn\<rparr>
         else if option = ''slide-across'' then s1\<lparr>drawingFunction := HorizontalTransitionFn\<rparr>
         else if option = ''slide-vertically'' then s1\<lparr>drawingFunction := VerticalTransitionFn\<rparr>
         else s1)"

text \<open>The listeners of \<^verbatim>\<open>setupKeyboardControls\<close> and \<^verbatim>\<open>setupTouchControls\<close>.\<close>

definition keydown :: "string \<Rightarrow> Slideshow \<Rightarrow> Slideshow" where
  "keydown key s =
     (if key = ''ArrowLeft'' then drawPreviousSlide (stopForManual s)
      else if key = ''ArrowRight'' then drawNextSlide (stopForManual s)
      else s)"

definition precision :: real where "precision = 15"

definition touchstart :: "real \<Rightarrow> Slideshow \<Rightarrow> Slideshow" where
  "touchstart clientX s = s\<lparr>startX := clientX\<rparr>"

definition touchend :: "real \<Rightarrow> Slideshow \<Rightarrow> Slideshow" where
  "touchend clientX s =
     (let s1 = s\<lparr>console := Logged ''touchend'' # console s\<rparr>;
          endX = clientX;
          difference = endX - startX s1
      in if difference \<ge> precision then drawNextSlide (stopForManual s1)
         else if difference \<le> precision * -1 then drawPreviousSlide (stopForManual s1)
         else s1)"

subsection \<open>The event loop\<close>

text \<open>
  What the host can deliver: a live timer fires (with the value \<^verbatim>\<open>Math.random()\<close> would
  give during that call), or the user acts on a control. The one-shot timeouts of the
  start-up and resize code are not interval timers and are not part of this loop.
\<close>

datatype event =
    TimerFires nat real
  | PlayClick
  | DirectionClick
  | RandomClick
  | NextClick
  | PreviousClick
  | EffectChange string
  | KeyDown string
  | TouchStart real
  | TouchEnd real

definition runCallback :: "nat \<Rightarrow> callback \<Rightarrow> real \<Rightarrow> Slideshow \<Rightarrow> Slideshow" where
  "runCallback self f r s =
     (case f of
        Autoplay \<Rightarrow>
          (if \<not> isRandom (controls s) then
             (if \<not> isReversed (controls s) then drawNextSlide s else drawPreviousSlide s)
           else drawRandomSlide r s)
      | RandomPlay randomState \<Rightarrow>
          (if randomState then drawRandomSlide r s else resumeSlideShow s)
      | FadeOut nextCounter w h \<Rightarrow> fadeOutTick nextCounter w h s
      | FadeIn w h \<Rightarrow> fadeInTick w h s
      | HSlide nextCounter w h offset forward \<Rightarrow>
          horizontalTick self nextCounter w h offset forward s
      | VSlide nextCounter w h offset forward \<Rightarrow>
          verticalTick self nextCounter w h offset forward s)"

definition fire :: "nat \<Rightarrow> real \<Rightarrow> Slideshow \<Rightarrow> Slideshow" where
  "fire h r s =
     (case map_of (timers s) h of
        None \<Rightarrow> s
      | Some (period, f) \<Rightarrow> runCallback h f r s)"

fun step :: "event \<Rightarrow> Slideshow \<Rightarrow> Slideshow" where
  "step (TimerFires h r) s = fire h r s"
| "step PlayClick s = playCallback s"
| "step DirectionClick s = directionCallback s"
| "step RandomClick s = randomCallback s"
| "step NextClick s = nextCallback s"
| "step PreviousClick s = previousCallback s"
| "step (EffectChange option) s = effectCallback option s"
| "step (KeyDown key) s = keydown key s"
| "step (TouchStart x) s = touchstart x s"
| "step (TouchEnd x) s = touchend x s"

fun run :: "event list \<Rightarrow> Slideshow \<Rightarrow> Slideshow" where
  "run [] s = s"
| "run (e # es) s = run es (step e s)"

text \<open>
  The state when the show begins (\<^verbatim>\<open>handleImageLoad\<close>, once the images are loaded): the
  fields have their initial values, the canvas has its size, the plain draw is the
  drawing function, the counter stands before the first image; then the first slide is
  drawn, the play button is toggled and autoplay starts.
\<close>

definition fresh :: "Image list \<Rightarrow> real \<Rightarrow> real \<Rightarrow> Slideshow" where
  "fresh imgs w h =
     \<lparr>images = imgs, globalImageWidth = w, globalImageHeight = h, interval = 0,
      imageCounter = 0,
      ctx = \<lparr>globalAlpha = 1, tx = 0, ty = 0, saved = [], calls = []\<rparr>,
      controls = setupControls, captions = [], drawingFunction = DrawSlideFn, startX = 0,
      timers = [], nextHandle = 1, peakLive = 0,
      console = [], uncaught = []\<rparr>"

definition start :: "Image list \<Rightarrow> real \<Rightarrow> real \<Rightarrow> Slideshow" where
  "start imgs w h =
     (let s0 = (fresh imgs w h)\<lparr>imageCounter := -1\<rparr>;
          s1 = drawNextSlide s0;
          s2 = s1\<lparr>controls := snd (togglePlay (controls s1))\<rparr>
      in resumeSlideShow s2)"

text \<open>Letting the timer held in \<^verbatim>\<open>this.interval\<close> fire \<open>n\<close> times, with no other event.\<close>

fun ticks :: "nat \<Rightarrow> Slideshow \<Rightarrow> Slideshow" where
  "ticks 0 s = s"
| "ticks (Suc n) s = ticks n (fire (interval s) 0 s)"

subsection \<open>Observations and sample data\<close>

text \<open>The timer discipline: no timer is live except the one whose handle \<^verbatim>\<open>this.interval\<close> holds.\<close>

definition oneTimer :: "Slideshow \<Rightarrow> bool" where
  "oneTimer s =
     (case timers s of
        [] \<Rightarrow> True
      | [e] \<Rightarrow> fst e = interval s
      | _ \<Rightarrow> False)"

definition timerDiscipline :: "Slideshow \<Rightarrow> bool" where
  "timerDiscipline s = (oneTimer s \<and> peakLive s \<le> 1)"

text \<open>The function of the timer that \<^verbatim>\<open>this.interval\<close> holds, if that timer is live.\<close>

definition liveCallback :: "Slideshow \<Rightarrow> callback option" where
  "liveCallback s = map_option snd (map_of (timers s) (interval s))"

definition fading :: "Slideshow \<Rightarrow> bool" where
  "fading s =
     (case liveCallback s of
        Some (FadeOut nextCounter w h) \<Rightarrow> True
      | Some (FadeIn w h) \<Rightarrow> True
      | _ \<Rightarrow> False)"

definition fadingOut :: "Slideshow \<Rightarrow> bool" where
  "fadingOut s =
     (case liveCallback s of
        Some (FadeOut nextCounter w h) \<Rightarrow> True
      | _ \<Rightarrow> False)"

definition sliding :: "Slideshow \<Rightarrow> bool" where
  "sliding s =
     (case liveCallback s of
        Some (HSlide nextCounter w h offset forward) \<Rightarrow> True
      | Some (VSlide nextCounter w h offset forward) \<Rightarrow> True
      | _ \<Rightarrow> False)"

text \<open>Letting the fade's timer fire up to \<open>n\<close> times, stopping when the fade is over.\<close>

fun fadeTicks :: "nat \<Rightarrow> Slideshow \<Rightarrow> Slideshow" where
  "fadeTicks 0 s = s"
| "fadeTicks (Suc n) s = (if fading s then fadeTicks n (fire (interval s) 0 s) else s)"

text \<open>
  Reading the log of the surface, oldest call first: which images were painted under
  which opacity, where their origins were, and how often the state was saved and
  restored. \<open>newFrames s s1\<close> and \<open>newOrigins s s1\<close> are what was painted after state \<open>s\<close>
  on the way to state \<open>s1\<close>.
\<close>

fun frameOf :: "call \<Rightarrow> (nat \<times> real) list" where
  "frameOf (DrawImage i x y a) = [(i, a)]"
| "frameOf c = []"

definition frames :: "Context \<Rightarrow> (nat \<times> real) list" where
  "frames c = concat (map frameOf (rev (calls c)))"

fun originOf :: "call \<Rightarrow> (nat \<times> real \<times> real) list" where
  "originOf (DrawImage i x y a) = [(i, x, y)]"
| "originOf c = []"

definition origins :: "Context \<Rightarrow> (nat \<times> real \<times> real) list" where
  "origins c = concat (map originOf (rev (calls c)))"

text \<open>
  A slide tick paints the outgoing image first and the incoming image second, so the
  outgoing paints are the first, third, fifth, ... of a transition.
\<close>

fun outgoing :: "'a list \<Rightarrow> 'a list" where
  "outgoing (a # b # rest) = a # outgoing rest"
| "outgoing rest = rest"

definition saves :: "Context \<Rightarrow> nat" where
  "saves c = count_list (calls c) Save"

definition restores :: "Context \<Rightarrow> nat" where
  "restores c = count_list (calls c) Restore"

text \<open>
  The opacity floor: the current opacity and every saved one is at least 0.092, the
  value one fade step below the threshold 0.1 at which fading out stops.
\<close>

definition visibleCtx :: "Context \<Rightarrow> bool" where
  "visibleCtx c = (0.092 \<le> globalAlpha c \<and> list_all (\<lambda>e. 0.092 \<le> fst e) (saved c))"

definition drawable :: "Slideshow \<Rightarrow> int \<Rightarrow> bool" where
  "drawable s i = (case imageAt (images s) i of None \<Rightarrow> False | Some img \<Rightarrow> \<not> broken img)"

definition newOrigins :: "Slideshow \<Rightarrow> Slideshow \<Rightarrow> (nat \<times> real \<times> real) list" where
  "newOrigins s s1 = drop (length (origins (ctx s))) (origins (ctx s1))"

definition newFrames :: "Slideshow \<Rightarrow> Slideshow \<Rightarrow> (nat \<times> real) list" where
  "newFrames s s1 = drop (length (frames (ctx s))) (frames (ctx s1))"

text \<open>
  The timer function that is live once the drawing function \<open>d\<close> has been called with
  \<open>target\<close> in state \<open>s\<close>: none after the plain draw, the first tick function of the
  effect otherwise.
\<close>

definition armedBy :: "drawing \<Rightarrow> int \<Rightarrow> Slideshow \<Rightarrow> callback option" where
  "armedBy d target s =
     (case d of
        DrawSlideFn \<Rightarrow> None
      | FadeTransitionFn \<Rightarrow>
          Some (FadeOut target (globalImageWidth s) (globalImageHeight s))
      | HorizontalTransitionFn \<Rightarrow>
          Some (HSlide target (globalImageWidth s) (globalImageHeight s) 0
                  (imageCounter s < target))
      | VerticalTransitionFn \<Rightarrow>
          Some (VSlide target (globalImageWidth s) (globalImageHeight s) 0
                  (imageCounter s < target)))"

text \<open>
  The calls that one complete tick of a slide adds to the log, newest first: \<open>i\<close> is the
  outgoing image, \<open>j\<close> the incoming one, \<open>(dx1, dy1)\<close> and \<open>(dx2, dy2)\<close> the two
  translations, and \<open>c\<close> the context before the tick.
\<close>

definition tickCalls ::
  "nat \<Rightarrow> nat \<Rightarrow> real \<Rightarrow> real \<Rightarrow> real \<Rightarrow> real \<Rightarrow> real \<Rightarrow> real \<Rightarrow> Context \<Rightarrow> call list" where
  "tickCalls i j dx1 dy1 dx2 dy2 W H c =
     [Restore,
      DrawImage j (tx c + dx1 + dx2) (ty c + dy1 + dy2) (globalAlpha c),
      Translate dx2 dy2,
      DrawImage i (tx c + dx1) (ty c + dy1) (globalAlpha c),
      Translate dx1 dy1,
      ClearRect W H,
      Save]"

text \<open>
  \<open>\<lceil>(extent + step) / step\<rceil>\<close>: the number of ticks in which a slide over \<open>extent\<close>
  pixels is expected to end.
\<close>

definition slideTicksNeeded :: "real \<Rightarrow> nat" where
  "slideTicksNeeded extent = nat \<lceil>(extent + increment) / increment\<rceil>"

definition threeImages :: "Image list" where
  "threeImages =
     [\<lparr>src = ''a.jpg'', alt = ''first'', broken = False\<rparr>,
      \<lparr>src = ''b.jpg'', alt = ''second'', broken = False\<rparr>,
      \<lparr>src = ''c.jpg'', alt = ''third'', broken = False\<rparr>]"

text \<open>The same list, but the second image failed to load.\<close>

definition brokenSecond :: "Image list" where
  "brokenSecond =
     [\<lparr>src = ''a.jpg'', alt = ''first'', broken = False\<rparr>,
      \<lparr>src = ''b.jpg'', alt = ''second'', broken = True\<rparr>,
      \<lparr>src = ''c.jpg'', alt = ''third'', broken = False\<rparr>]"

section \<open>Wraparound of the slide counter\<close>

text \<open>
  C5. With at least one image and a valid current index, the forward target after the
  last index is 0 and otherwise one more than the current index; the backward target
  before index 0 is the last index and otherwise one less than the current index.
\<close>

theorem wraparound_targets:
  assumes "1 \<le> length (images s)" and "0 \<le> imageCounter s"
    and "imageCounter s < int (length (images s))"
  shows "nextCounterOf s =
           (if imageCounter s = int (length (images s)) - 1 then 0 else imageCounter s + 1)
         \<and> previousCounterOf s =
           (if imageCounter s = 0 then int (length (images s)) - 1 else imageCounter s - 1)"
  using assms by (auto simp: nextCounterOf_def previousCounterOf_def Let_def)

theorem wraparound_targets_witness:
  "1 \<le> length (images ((fresh threeImages 640 360)\<lparr>imageCounter := 2\<rparr>))
   \<and> 0 \<le> imageCounter ((fresh threeImages 640 360)\<lparr>imageCounter := 2\<rparr>)
   \<and> imageCounter ((fresh threeImages 640 360)\<lparr>imageCounter := 2\<rparr>)
       < int (length (images ((fresh threeImages 640 360)\<lparr>imageCounter := 2\<rparr>)))
   \<and> nextCounterOf ((fresh threeImages 640 360)\<lparr>imageCounter := 2\<rparr>) = 0
   \<and> previousCounterOf ((fresh threeImages 640 360)\<lparr>imageCounter := 2\<rparr>) = 1"
  using wraparound_targets [of "(fresh threeImages 640 360)\<lparr>imageCounter := 2\<rparr>"]
  by (simp add: fresh_def threeImages_def)

section \<open>Control state\<close>

lemmas control_defs =
  toggle_def toggleEnabled_def togglePlay_def toggleDirection_def toggleRandom_def
  isPlaying_def isRandom_def isReversed_def getState_def isActive_def

text \<open>
  C4, as the code has it. \<^verbatim>\<open>togglePlay()\<close> called twice returns the playing flag to its
  original value (the play control itself is always enabled: nothing disables it). It
  does not return the enabled state of the random and direction controls to what it
  was: \<^verbatim>\<open>togglePlay\<close> sets both to the new playing value each time, so after the second
  call both are enabled exactly when the show is playing, whatever they were before.
\<close>

theorem togglePlay_twice:
  assumes "isEnabled (playButton m)"
  shows "isPlaying (snd (togglePlay (snd (togglePlay m)))) = isPlaying m
       \<and> isActive (randomButton (snd (togglePlay (snd (togglePlay m))))) = isPlaying m
       \<and> isActive (directionButton (snd (togglePlay (snd (togglePlay m))))) = isPlaying m"
  using assms by (simp add: control_defs Let_def)

theorem togglePlay_twice_witness:
  "isEnabled (playButton (snd (togglePlay setupControls)))
   \<and> isPlaying (snd (togglePlay (snd (togglePlay (snd (togglePlay setupControls)))))) =
       isPlaying (snd (togglePlay setupControls))
   \<and> isActive (randomButton (snd (togglePlay (snd (togglePlay (snd (togglePlay setupControls)))))))
   \<and> isActive (directionButton (snd (togglePlay (snd (togglePlay (snd (togglePlay setupControls)))))))"
proof -
  have h: "isEnabled (playButton (snd (togglePlay setupControls)))"
    by code_simp
  have p: "isPlaying (snd (togglePlay setupControls))"
    by code_simp
  show ?thesis
    using togglePlay_twice [OF h] h p by simp
qed

text \<open>
  The claim as stated fails in a state the show reaches: playing, with random switched
  on, the direction control is disabled; after two calls of \<^verbatim>\<open>togglePlay\<close> it is enabled.
\<close>

theorem togglePlay_twice_counterexample:
  "\<not> (isActive (directionButton
          (snd (togglePlay (snd (togglePlay
             (snd (toggleRandom (snd (togglePlay setupControls))))))))) =
       isActive (directionButton (snd (toggleRandom (snd (togglePlay setupControls))))))"
  by code_simp

text \<open>
  C3. Entering random mode should leave the previous, next and direction controls
  disabled. \<^verbatim>\<open>toggleRandom\<close> flips their enabled flags instead of setting them, and pausing
  switches random off without flipping them back. After random, pause, play, random the
  show is in random mode with the previous and next controls enabled.
\<close>

theorem random_controls_drift:
  "isRandom (controls (run [RandomClick, PlayClick, PlayClick, RandomClick]
                         (start threeImages 640 360)))
   \<and> isActive (nextButton (controls (run [RandomClick, PlayClick, PlayClick, RandomClick]
                         (start threeImages 640 360))))
   \<and> isActive (previousButton (controls (run [RandomClick, PlayClick, PlayClick, RandomClick]
                         (start threeImages 640 360))))"
  by code_simp

text \<open>The controls alone: toggling a disabled direction control changes nothing.\<close>

lemma toggleDirection_disabled:
  "\<not> isEnabled (directionButton m) \<Longrightarrow> toggleDirection m = (isReversed m, m)"
  by (simp add: control_defs Let_def)

text \<open>
  C9. With the direction control disabled, the direction toggle should have no effect.
  \<^verbatim>\<open>toggleDirection\<close> indeed leaves the controls as they are, but \<^verbatim>\<open>directionCallback\<close> then
  calls \<^verbatim>\<open>resumeSlideShow\<close> all the same: in the paused show, where the direction control
  is disabled and no timer is live, a click on it starts the autoplay timer while the
  show still counts as paused.
\<close>

theorem directionCallback_disabled_resumes:
  "\<not> isActive (directionButton (controls (run [PlayClick] (start threeImages 640 360))))
   \<and> \<not> isPlaying (controls (run [PlayClick] (start threeImages 640 360)))
   \<and> timers (run [PlayClick] (start threeImages 640 360)) = []
   \<and> controls (run [PlayClick, DirectionClick] (start threeImages 640 360)) =
       controls (run [PlayClick] (start threeImages 640 360))
   \<and> timers (run [PlayClick, DirectionClick] (start threeImages 640 360)) =
       [(2, playSpeed, Autoplay)]"
  by code_simp

section \<open>The plain draw\<close>

text \<open>
  C8. \<^verbatim>\<open>drawSlide\<close> never lets an exception out. For every target index it returns a
  state in which the counter equals the target, no exception has escaped and the timers
  are as they were. A target outside the image array is cleared and logged as a
  \<open>TypeError\<close>; an image that failed to load is cleared, announced and logged as an
  \<open>InvalidStateError\<close>; in both cases the caption stays. Any other target is announced
  and painted, and its caption is shown.
\<close>

theorem drawSlide_contains_faults:
  "imageCounter (drawSlide w h slide s) = slide
   \<and> uncaught (drawSlide w h slide s) = uncaught s
   \<and> timers (drawSlide w h slide s) = timers s
   \<and> interval (drawSlide w h slide s) = interval s
   \<and> console (drawSlide w h slide s) =
       (case imageAt (images s) slide of
          None \<Rightarrow> CouldNotDraw slide TypeError # console s
        | Some img \<Rightarrow>
            if broken img
            then CouldNotDraw slide InvalidStateError # Logged (''Drawing '' @ src img) # console s
            else Logged (''Drawing '' @ src img) # console s)
   \<and> ctx (drawSlide w h slide s) =
       (case imageAt (images s) slide of
          None \<Rightarrow> clearRect w h (ctx s)
        | Some img \<Rightarrow>
            if broken img then clearRect w h (ctx s)
            else paint (nat slide) (clearRect w h (ctx s)))
   \<and> captions (drawSlide w h slide s) =
       (case imageAt (images s) slide of
          None \<Rightarrow> captions s
        | Some img \<Rightarrow> if broken img then captions s else alt img)"
  by (simp add: drawSlide_def drawSlideTry_def drawImage_def Let_def
      split: option.splits)

text \<open>
  A target outside the array, a target whose image failed to load, and a target that
  can be drawn.
\<close>

theorem drawSlide_contains_faults_witness:
  "imageCounter (drawSlide 640 360 7 (start threeImages 640 360)) = 7
   \<and> uncaught (drawSlide 640 360 7 (start threeImages 640 360)) = []
   \<and> timers (drawSlide 640 360 7 (start threeImages 640 360)) = [(1, playSpeed, Autoplay)]
   \<and> console (drawSlide 640 360 7 (start threeImages 640 360)) =
       [CouldNotDraw 7 TypeError, Logged ''Drawing a.jpg'']
   \<and> imageCounter (drawSlide 640 360 1 (start brokenSecond 640 360)) = 1
   \<and> uncaught (drawSlide 640 360 1 (start brokenSecond 640 360)) = []
   \<and> console (drawSlide 640 360 1 (start brokenSecond 640 360)) =
       [CouldNotDraw 1 InvalidStateError, Logged ''Drawing b.jpg'', Logged ''Drawing a.jpg'']
   \<and> captions (drawSlide 640 360 1 (start brokenSecond 640 360)) = ''first''
   \<and> console (drawSlide 640 360 1 (start threeImages 640 360)) =
       [Logged ''Drawing b.jpg'', Logged ''Drawing a.jpg'']
   \<and> captions (drawSlide 640 360 1 (start threeImages 640 360)) = ''second''"
proof -
  have good: "timers (start threeImages 640 360) = [(1, playSpeed, Autoplay)]
      \<and> uncaught (start threeImages 640 360) = []
      \<and> console (start threeImages 640 360) = [Logged ''Drawing a.jpg'']
      \<and> imageAt (images (start threeImages 640 360)) 7 = None
      \<and> imageAt (images (start threeImages 640 360)) 1 =
          Some \<lparr>src = ''b.jpg'', alt = ''second'', broken = False\<rparr>"
    by code_simp
  have bad: "uncaught (start brokenSecond 640 360) = []
      \<and> console (start brokenSecond 640 360) = [Logged ''Drawing a.jpg'']
      \<and> captions (start brokenSecond 640 360) = ''first''
      \<and> imageAt (images (start brokenSecond 640 360)) 1 =
          Some \<lparr>src = ''b.jpg'', alt = ''second'', broken = True\<rparr>"
    by code_simp
  show ?thesis
    using drawSlide_contains_faults [of 640 360 7 "start threeImages 640 360"]
      drawSlide_contains_faults [of 640 360 1 "start brokenSecond 640 360"]
      drawSlide_contains_faults [of 640 360 1 "start threeImages 640 360"] good bad
    by simp
qed

section \<open>The timer discipline\<close>

lemma oneTimer_iff:
  "oneTimer s \<longleftrightarrow> (timers s = [] \<or> (\<exists>e. timers s = [e] \<and> fst e = interval s))"
  by (auto simp: oneTimer_def split: list.splits)

lemma timerDiscipline_cong:
  "timers s' = timers s \<Longrightarrow> interval s' = interval s \<Longrightarrow> peakLive s' = peakLive s
   \<Longrightarrow> timerDiscipline s' = timerDiscipline s"
  by (auto simp: timerDiscipline_def oneTimer_def split: list.splits)

lemma clearInterval_held:
  "timerDiscipline s \<Longrightarrow>
     timers (clearInterval (interval s) s) = [] \<and> peakLive (clearInterval (interval s) s) \<le> 1"
  by (auto simp: timerDiscipline_def oneTimer_iff clearInterval_def)

lemma setInterval_idle:
  "timers s = [] \<Longrightarrow> peakLive s \<le> 1 \<Longrightarrow>
     timerDiscipline ((snd (setInterval f p s))\<lparr>interval := fst (setInterval f p s)\<rparr>)"
  by (simp add: timerDiscipline_def oneTimer_def setInterval_def)

lemma idle_discipline: "timers s = [] \<Longrightarrow> peakLive s \<le> 1 \<Longrightarrow> timerDiscipline s"
  by (simp add: timerDiscipline_def oneTimer_def)

lemma rearm_discipline:
  assumes "timerDiscipline s"
    and "timers s1 = timers (clearInterval (interval s) s)" and "peakLive s1 = peakLive s"
  shows "timerDiscipline ((snd (setInterval f p s1))\<lparr>interval := fst (setInterval f p s1)\<rparr>)"
  using clearInterval_held [OF assms(1)] assms(2,3)
  by (intro setInterval_idle) (simp_all add: clearInterval_def)

lemma resumeSlideShow_discipline: "timerDiscipline s \<Longrightarrow> timerDiscipline (resumeSlideShow s)"
  unfolding resumeSlideShow_def Let_def case_prod_beta
  by (rule rearm_discipline [of s]) (simp_all add: clearInterval_def)

lemma drawSlide_timers:
  "timers (drawSlide w h slide s) = timers s" "interval (drawSlide w h slide s) = interval s"
  "peakLive (drawSlide w h slide s) = peakLive s"
  by (simp_all add: drawSlide_def drawSlideTry_def drawImage_def Let_def
      split: option.splits sum.splits)

lemma drawSlide_discipline: "timerDiscipline (drawSlide w h slide s) = timerDiscipline s"
  by (rule timerDiscipline_cong) (rule drawSlide_timers)+

lemma fadeTransition_discipline: "timerDiscipline s \<Longrightarrow> timerDiscipline (fadeTransition n w h s)"
  unfolding fadeTransition_def Let_def case_prod_beta
  by (rule rearm_discipline [of s]) (simp_all add: clearInterval_def)

lemma horizontalTransition_discipline:
  "timerDiscipline s \<Longrightarrow> timerDiscipline (horizontalTransition n w h s)"
  unfolding horizontalTransition_def Let_def case_prod_beta
  by (rule rearm_discipline [of s]) (simp_all add: clearInterval_def)

lemma verticalTransition_discipline:
  "timerDiscipline s \<Longrightarrow> timerDiscipline (verticalTransition n w h s)"
  unfolding verticalTransition_def Let_def case_prod_beta
  by (rule rearm_discipline [of s]) (simp_all add: clearInterval_def)

lemma callDrawingFunction_discipline:
  "timerDiscipline s \<Longrightarrow> timerDiscipline (callDrawingFunction n s)"
  by (simp add: callDrawingFunction_def drawSlide_discipline fadeTransition_discipline
      horizontalTransition_discipline verticalTransition_discipline split: drawing.splits)

lemma fadeOutTick_discipline: "timerDiscipline s \<Longrightarrow> timerDiscipline (fadeOutTick n w h s)"
proof (cases "globalAlpha (ctx s) \<ge> 0.1")
  case True
  assume "timerDiscipline s"
  then have "timerDiscipline (drawSlide w h (imageCounter s) s)"
    by (simp add: drawSlide_discipline)
  moreover have "timerDiscipline (fadeOutTick n w h s) = timerDiscipline (drawSlide w h (imageCounter s) s)"
    using True by (intro timerDiscipline_cong) (simp_all add: fadeOutTick_def Let_def)
  ultimately show ?thesis by simp
next
  case False
  assume d: "timerDiscipline s"
  have "timerDiscipline
          ((snd (setInterval (FadeIn w h) animationSpeed ((clearInterval (interval s) s)\<lparr>imageCounter := n\<rparr>)))
           \<lparr>interval := fst (setInterval (FadeIn w h) animationSpeed ((clearInterval (interval s) s)\<lparr>imageCounter := n\<rparr>))\<rparr>)"
    by (rule rearm_discipline [OF d]) (simp_all add: clearInterval_def)
  then show ?thesis using False by (simp add: fadeOutTick_def Let_def case_prod_beta)
qed

lemma clearInterval_discipline:
  "timerDiscipline s \<Longrightarrow> timerDiscipline (clearInterval (interval s) s)"
  using clearInterval_held [of s] by (simp add: idle_discipline)

lemma clearInterval_fields [simp]:
  "interval (clearInterval h s) = interval s" "controls (clearInterval h s) = controls s"
  "peakLive (clearInterval h s) = peakLive s" "images (clearInterval h s) = images s"
  "imageCounter (clearInterval h s) = imageCounter s" "ctx (clearInterval h s) = ctx s"
  by (simp_all add: clearInterval_def)

lemma fadeInTick_discipline: "timerDiscipline s \<Longrightarrow> timerDiscipline (fadeInTick w h s)"
proof (cases "globalAlpha (ctx s) < 1.0")
  case True
  assume "timerDiscipline s"
  then have "timerDiscipline (drawSlide w h (imageCounter s) s)"
    by (simp add: drawSlide_discipline)
  moreover have "timerDiscipline (fadeInTick w h s) = timerDiscipline (drawSlide w h (imageCounter s) s)"
    using True by (intro timerDiscipline_cong) (simp_all add: fadeInTick_def Let_def)
  ultimately show ?thesis by simp
next
  case False
  assume d: "timerDiscipline s"
  then show ?thesis using False
    by (simp add: fadeInTick_def Let_def clearInterval_discipline resumeSlideShow_discipline)
qed

lemma setClosure_discipline: "timerDiscipline s \<Longrightarrow> timerDiscipline (setClosure h f s)"
  by (auto simp: timerDiscipline_def oneTimer_iff setClosure_def)

lemma raise_discipline: "timerDiscipline (raise e s) = timerDiscipline s"
  by (rule timerDiscipline_cong) (simp_all add: raise_def)

lemma ctx_update_discipline: "timerDiscipline (s\<lparr>ctx := c\<rparr>) = timerDiscipline s"
  by (rule timerDiscipline_cong) simp_all

lemma slideDone_discipline: "timerDiscipline s \<Longrightarrow> timerDiscipline (slideDone n s)"
proof -
  assume d: "timerDiscipline s"
  let ?s2 = "(clearInterval (interval s) s)\<lparr>imageCounter := n\<rparr>"
  have d2: "timerDiscipline ?s2"
    using clearInterval_discipline [OF d] timerDiscipline_cong [of ?s2 "clearInterval (interval s) s"]
    by simp
  have d3: "timerDiscipline (?s2\<lparr>captions := c\<rparr>)" for c
    using d2 timerDiscipline_cong [of "?s2\<lparr>captions := c\<rparr>" ?s2] by simp
  show ?thesis
    using d2 d3 by (simp add: slideDone_def Let_def raise_discipline resumeSlideShow_discipline
        split: option.splits)
qed

lemma horizontalTick_discipline:
  "timerDiscipline s \<Longrightarrow> timerDiscipline (horizontalTick self n w h off fwd s)"
  by (simp add: horizontalTick_def Let_def raise_discipline ctx_update_discipline
      setClosure_discipline slideDone_discipline split: sum.splits)

lemma verticalTick_discipline:
  "timerDiscipline s \<Longrightarrow> timerDiscipline (verticalTick self n w h off fwd s)"
  by (simp add: verticalTick_def Let_def raise_discipline ctx_update_discipline
      setClosure_discipline slideDone_discipline split: sum.splits)

lemma controls_update_discipline: "timerDiscipline (s\<lparr>controls := m\<rparr>) = timerDiscipline s"
  by (rule timerDiscipline_cong) simp_all

lemma console_update_discipline: "timerDiscipline (s\<lparr>console := l\<rparr>) = timerDiscipline s"
  by (rule timerDiscipline_cong) simp_all

lemma drawNextSlide_discipline: "timerDiscipline s \<Longrightarrow> timerDiscipline (drawNextSlide s)"
  by (simp add: drawNextSlide_def callDrawingFunction_discipline)

lemma drawPreviousSlide_discipline: "timerDiscipline s \<Longrightarrow> timerDiscipline (drawPreviousSlide s)"
  by (simp add: drawPreviousSlide_def callDrawingFunction_discipline)

lemma drawRandomSlide_discipline: "timerDiscipline s \<Longrightarrow> timerDiscipline (drawRandomSlide r s)"
  by (simp add: drawRandomSlide_def callDrawingFunction_discipline)

lemma runCallback_discipline: "timerDiscipline s \<Longrightarrow> timerDiscipline (runCallback self f r s)"
  by (simp add: runCallback_def drawNextSlide_discipline drawPreviousSlide_discipline
      drawRandomSlide_discipline resumeSlideShow_discipline fadeOutTick_discipline
      fadeInTick_discipline horizontalTick_discipline verticalTick_discipline
      split: callback.splits)

lemma fire_discipline: "timerDiscipline s \<Longrightarrow> timerDiscipline (fire h r s)"
  by (simp add: fire_def runCallback_discipline split: option.splits)

lemma playCallback_discipline: "timerDiscipline s \<Longrightarrow> timerDiscipline (playCallback s)"
  by (simp add: playCallback_def Let_def case_prod_beta controls_update_discipline
      resumeSlideShow_discipline clearInterval_discipline
      clearInterval_discipline [of "s\<lparr>controls := m\<rparr>" for m, simplified])

lemma directionCallback_discipline: "timerDiscipline s \<Longrightarrow> timerDiscipline (directionCallback s)"
  by (simp add: directionCallback_def case_prod_beta controls_update_discipline
      resumeSlideShow_discipline)

lemma randomCallback_discipline: "timerDiscipline s \<Longrightarrow> timerDiscipline (randomCallback s)"
  unfolding randomCallback_def Let_def case_prod_beta
  by (rule rearm_discipline [of s]) (simp_all add: clearInterval_def)

lemma stopForManual_discipline: "timerDiscipline s \<Longrightarrow> timerDiscipline (stopForManual s)"
  by (simp add: stopForManual_def Let_def controls_update_discipline clearInterval_discipline)

lemma step_discipline: "timerDiscipline s \<Longrightarrow> timerDiscipline (step e s)"
proof (cases e)
  case (EffectChange option)
  have "timerDiscipline (effectCallback option s) = timerDiscipline s"
    by (rule timerDiscipline_cong) (simp_all add: effectCallback_def Let_def)
  moreover assume "timerDiscipline s"
  ultimately show ?thesis using EffectChange by simp
next
  case (TouchStart x)
  have "timerDiscipline (touchstart x s) = timerDiscipline s"
    by (rule timerDiscipline_cong) (simp_all add: touchstart_def)
  moreover assume "timerDiscipline s"
  ultimately show ?thesis using TouchStart by simp
qed (simp_all add: fire_discipline playCallback_discipline directionCallback_discipline
    randomCallback_discipline nextCallback_def previousCallback_def keydown_def touchend_def
    Let_def drawNextSlide_discipline drawPreviousSlide_discipline stopForManual_discipline
    console_update_discipline)

lemma run_discipline: "timerDiscipline s \<Longrightarrow> timerDiscipline (run es s)"
  by (induction es arbitrary: s) (simp_all add: step_discipline)

lemma fresh_discipline: "timerDiscipline ((fresh imgs w h)\<lparr>imageCounter := -1\<rparr>)"
  by (simp add: timerDiscipline_def oneTimer_def fresh_def)

lemma start_discipline: "timerDiscipline (start imgs w h)"
  unfolding start_def Let_def
  by (intro resumeSlideShow_discipline)
     (simp add: controls_update_discipline drawNextSlide_discipline fresh_discipline)

lemma timerDiscipline_length: "timerDiscipline s \<Longrightarrow> length (timers s) \<le> 1"
  by (auto simp: timerDiscipline_def oneTimer_iff)


text \<open>
  The direction callback arms the autoplay timer in every state, whether or not the
  direction control is enabled and whether or not the show is playing.
\<close>

lemma directionCallback_arms_autoplay:
  assumes "timerDiscipline s"
  shows "liveCallback (directionCallback s) = Some Autoplay"
  using clearInterval_held [OF assms]
  by (simp add: directionCallback_def resumeSlideShow_def setInterval_def clearInterval_def
      liveCallback_def toggleDirection_def Let_def)

text \<open>
  C1. Whatever the timers and the user do after the show has started, at most one
  interval timer is live: each function that installs a timer first clears the one whose
  handle it holds, and no other timer is ever live. \<open>peakLive\<close> counts the timers at the
  moment of each \<^verbatim>\<open>setInterval\<close>, so the bound also holds inside a callback.
\<close>

theorem single_timer:
  "length (timers (run es (start imgs w h))) \<le> 1
   \<and> peakLive (run es (start imgs w h)) \<le> 1
   \<and> oneTimer (run es (start imgs w h))"
  using run_discipline [OF start_discipline, of es imgs w h]
    timerDiscipline_length [of "run es (start imgs w h)"]
  by (simp add: timerDiscipline_def)


theorem single_timer_witness:
  "length (timers (run [EffectChange ''fade'', TimerFires 1 0, TimerFires 2 0, RandomClick,
                        NextClick, PlayClick, KeyDown ''ArrowRight'']
                     (start threeImages 640 360))) \<le> 1
   \<and> peakLive (run [EffectChange ''fade'', TimerFires 1 0, TimerFires 2 0, RandomClick,
                     NextClick, PlayClick, KeyDown ''ArrowRight'']
                  (start threeImages 640 360)) = 1"
proof -
  have "peakLive (run [EffectChange ''fade'', TimerFires 1 0, TimerFires 2 0, RandomClick,
                       NextClick, PlayClick, KeyDown ''ArrowRight'']
                    (start threeImages 640 360)) = 1"
    by code_simp
  then show ?thesis
    using single_timer [of "[EffectChange ''fade'', TimerFires 1 0, TimerFires 2 0, RandomClick,
                             NextClick, PlayClick, KeyDown ''ArrowRight'']" threeImages 640 360]
    by simp
qed

section \<open>Manual advance\<close>

lemma stopForManual_fields [simp]:
  "images (stopForManual s) = images s" "imageCounter (stopForManual s) = imageCounter s"
  "drawingFunction (stopForManual s) = drawingFunction s"
  "globalImageWidth (stopForManual s) = globalImageWidth s"
  "globalImageHeight (stopForManual s) = globalImageHeight s"
  "interval (stopForManual s) = interval s"
  by (simp_all add: stopForManual_def Let_def clearInterval_def)


lemma nextCounterOf_stop [simp]: "nextCounterOf (stopForManual s) = nextCounterOf s"
  by (simp add: nextCounterOf_def)

lemma previousCounterOf_stop [simp]: "previousCounterOf (stopForManual s) = previousCounterOf s"
  by (simp add: previousCounterOf_def)

lemma armedBy_stop [simp]: "armedBy d n (stopForManual s) = armedBy d n s"
  by (simp add: armedBy_def split: drawing.splits)

lemma drawSlide_controls [simp]: "controls (drawSlide w h n s) = controls s"
  by (simp add: drawSlide_def drawSlideTry_def drawImage_def Let_def split: option.splits sum.splits)

lemma drawSlide_imageCounter [simp]: "imageCounter (drawSlide w h n s) = n"
  by (simp add: drawSlide_def drawSlideTry_def drawImage_def Let_def split: option.splits sum.splits)







section \<open>Slide transitions\<close>

lemma drawImage_drawable:
  "drawable s i \<Longrightarrow> drawImage (images s) i c = Inr (paint (nat i) c)"
  by (auto simp: drawable_def drawImage_def split: option.splits)

lemma fire_live:
  "timers s = [(interval s, p, f)] \<Longrightarrow> fire (interval s) r s = runCallback (interval s) f r s"
  by (simp add: fire_def)

lemma tick_ctx:
  "restore (paint j (translate dx2 dy2 (paint i (translate dx1 dy1 (clearRect W H (save c)))))) =
     c\<lparr>calls := tickCalls i j dx1 dy1 dx2 dy2 W H c @ calls c\<rparr>"
  by (simp add: save_def clearRect_def translate_def restore_def paint_def tickCalls_def)

lemma drawable_ctx_timers [simp]:
  "drawable (s\<lparr>ctx := c, timers := ts\<rparr>) i = drawable s i"
  by (simp add: drawable_def)

lemma ticks_add: "ticks (n + m) s = ticks m (ticks n s)"
  by (induction n arbitrary: s) simp_all

lemma outgoing_pairs: "outgoing (concat (map (\<lambda>n. [a n, b n]) xs)) = map a xs"
  by (induction xs) simp_all

lemma tickCalls_counts:
  "count_list (tickCalls i j dx1 dy1 dx2 dy2 W H c) Save = 1"
  "count_list (tickCalls i j dx1 dy1 dx2 dy2 W H c) Restore = 1"
  "concat (map originOf (rev (tickCalls i j dx1 dy1 dx2 dy2 W H c))) =
     [(i, tx c + dx1, ty c + dy1), (j, tx c + dx1 + dx2, ty c + dy1 + dy2)]"
  by (simp_all add: tickCalls_def)

text \<open>
  Both slides follow one scheme: \<open>mk off\<close> is the registered function when the captured
  offset is \<open>off\<close>, and a tick at offset \<open>off\<close> translates by \<open>(dx off, dy off)\<close> and then
  by \<open>(dx2, dy2)\<close>. \<open>E\<close> is the extent along the axis.
\<close>

lemma slide_running:
  fixes mk :: "real \<Rightarrow> callback" and dx dy :: "real \<Rightarrow> real"
  assumes step: "\<And>s off. timers s = [(interval s, p, mk off)] \<Longrightarrow> drawable s (imageCounter s)
         \<Longrightarrow> drawable s t \<Longrightarrow> off < E \<Longrightarrow>
         fire (interval s) 0 s =
           s\<lparr>ctx := (ctx s)\<lparr>calls := tickCalls (nat (imageCounter s)) (nat t) (dx off) (dy off)
                                      ex ey W H (ctx s) @ calls (ctx s)\<rparr>,
             timers := [(interval s, p, mk (off + increment))]\<rparr>"
    and "timers s = [(interval s, p, mk off)]"
    and "drawable s (imageCounter s)" and "drawable s t"
    and "off + increment * real k < E + increment"
  shows "\<exists>cs. ticks k s =
                s\<lparr>ctx := (ctx s)\<lparr>calls := cs @ calls (ctx s)\<rparr>,
                  timers := [(interval s, p, mk (off + increment * real k))]\<rparr>
            \<and> count_list cs Save = k \<and> count_list cs Restore = k
            \<and> concat (map originOf (rev cs)) =
                concat (map (\<lambda>n. [(nat (imageCounter s),
                                     tx (ctx s) + dx (off + increment * real n),
                                     ty (ctx s) + dy (off + increment * real n)),
                                    (nat t,
                                     tx (ctx s) + dx (off + increment * real n) + ex,
                                     ty (ctx s) + dy (off + increment * real n) + ey)]) [0..<k])"
  using assms(2-)
proof (induction k arbitrary: s off)
  case 0
  then show ?case by (intro exI [of _ "[]"]) simp
next
  case (Suc k)
  let ?tc = "tickCalls (nat (imageCounter s)) (nat t) (dx off) (dy off) ex ey W H (ctx s)"
  let ?s1 = "s\<lparr>ctx := (ctx s)\<lparr>calls := ?tc @ calls (ctx s)\<rparr>,
              timers := [(interval s, p, mk (off + increment))]\<rparr>"
  have inc: "increment = 3" by (simp add: increment_def)
  have lt: "off < E" using Suc.prems(4) by (simp add: inc)
  have f: "fire (interval s) 0 s = ?s1"
    by (rule step [OF Suc.prems(1-3) lt])
  have "\<exists>cs. ticks k ?s1 =
                ?s1\<lparr>ctx := (ctx ?s1)\<lparr>calls := cs @ calls (ctx ?s1)\<rparr>,
                  timers := [(interval ?s1, p, mk (off + increment + increment * real k))]\<rparr>
            \<and> count_list cs Save = k \<and> count_list cs Restore = k
            \<and> concat (map originOf (rev cs)) =
                concat (map (\<lambda>n. [(nat (imageCounter ?s1),
                                     tx (ctx ?s1) + dx (off + increment + increment * real n),
                                     ty (ctx ?s1) + dy (off + increment + increment * real n)),
                                    (nat t,
                                     tx (ctx ?s1) + dx (off + increment + increment * real n) + ex,
                                     ty (ctx ?s1) + dy (off + increment + increment * real n) + ey)])
                          [0..<k])"
    using Suc.prems by (intro Suc.IH) (simp_all add: inc algebra_simps)
  then obtain cs where cs: "ticks k ?s1 =
                ?s1\<lparr>ctx := (ctx ?s1)\<lparr>calls := cs @ calls (ctx ?s1)\<rparr>,
                  timers := [(interval ?s1, p, mk (off + increment + increment * real k))]\<rparr>"
    and c1: "count_list cs Save = k" and c2: "count_list cs Restore = k"
    and c3: "concat (map originOf (rev cs)) =
                concat (map (\<lambda>n. [(nat (imageCounter ?s1),
                                     tx (ctx ?s1) + dx (off + increment + increment * real n),
                                     ty (ctx ?s1) + dy (off + increment + increment * real n)),
                                    (nat t,
                                     tx (ctx ?s1) + dx (off + increment + increment * real n) + ex,
                                     ty (ctx ?s1) + dy (off + increment + increment * real n) + ey)])
                          [0..<k])"
    by blast
  have up: "[0..<Suc k] = 0 # map Suc [0..<k]"
    by (simp add: upt_rec [of 0 "Suc k"] map_Suc_upt del: upt_Suc)
  have shift: "off + increment + increment * real n = off + increment * real (Suc n)" for n
    by (simp add: algebra_simps)
  show ?case
  proof (intro exI [of _ "cs @ ?tc"] conjI)
    show "ticks (Suc k) s =
            s\<lparr>ctx := (ctx s)\<lparr>calls := (cs @ ?tc) @ calls (ctx s)\<rparr>,
              timers := [(interval s, p, mk (off + increment * real (Suc k)))]\<rparr>"
      using cs f by (simp add: shift)
    show "count_list (cs @ ?tc) Save = Suc k"
      using c1 by (simp add: tickCalls_counts)
    show "count_list (cs @ ?tc) Restore = Suc k"
      using c2 by (simp add: tickCalls_counts)
    show "concat (map originOf (rev (cs @ ?tc))) =
            concat (map (\<lambda>n. [(nat (imageCounter s),
                                 tx (ctx s) + dx (off + increment * real n),
                                 ty (ctx s) + dy (off + increment * real n)),
                                (nat t,
                                 tx (ctx s) + dx (off + increment * real n) + ex,
                                 ty (ctx s) + dy (off + increment * real n) + ey)]) [0..<Suc k])"
      unfolding up using c3
      by (simp add: tickCalls_counts comp_def shift del: upt_Suc of_nat_Suc)
  qed
qed


lemma slideDone_after:
  assumes "timers s = [(interval s, p, f)]" and "drawable s t"
  shows "ctx (slideDone t s) = ctx s" and "imageCounter (slideDone t s) = t"
    and "liveCallback (slideDone t s) = (if isPlaying (controls s) then Some Autoplay else None)"
  using assms
  by (auto simp: slideDone_def Let_def drawable_def resumeSlideShow_def setInterval_def
      clearInterval_def liveCallback_def split: option.splits)

lemma needed_bounds:
  assumes "0 \<le> E"
  shows "1 \<le> slideTicksNeeded E"
    and "k < slideTicksNeeded E \<Longrightarrow> increment * real k < E + increment"
    and "E \<le> increment * real (slideTicksNeeded E - 1)"
proof -
  let ?x = "(E + 3) / 3"
  have n: "slideTicksNeeded E = nat \<lceil>?x\<rceil>" by (simp add: slideTicksNeeded_def increment_def)
  have pos: "0 < ?x" using assms by simp
  then have c1: "1 \<le> \<lceil>?x\<rceil>" by linarith
  then show "1 \<le> slideTicksNeeded E" unfolding n by linarith
  have up: "?x \<le> real_of_int \<lceil>?x\<rceil>" by (rule le_of_int_ceiling)
  have lo: "real_of_int \<lceil>?x\<rceil> < ?x + 1" using ceiling_correct [of ?x] by linarith
  have r: "real (nat \<lceil>?x\<rceil>) = real_of_int \<lceil>?x\<rceil>" using c1 by simp
  have "nat \<lceil>?x\<rceil> - 1 = nat (\<lceil>?x\<rceil> - 1)" by linarith
  then have r1: "real (nat \<lceil>?x\<rceil> - 1) = real_of_int \<lceil>?x\<rceil> - 1"
    using c1 by simp
  have "3 * ?x \<le> 3 * real_of_int \<lceil>?x\<rceil>" using up by linarith
  then have "E + 3 \<le> 3 * real_of_int \<lceil>?x\<rceil>" by simp
  then show "E \<le> increment * real (slideTicksNeeded E - 1)"
    unfolding n r1 by (simp add: increment_def algebra_simps)
  assume "k < slideTicksNeeded E"
  then have "real k + 1 \<le> real (nat \<lceil>?x\<rceil>)" unfolding n by linarith
  then have "real k < ?x" using lo r by linarith
  then show "increment * real k < E + increment" by (simp add: increment_def)
qed

lemma slide_complete:
  fixes mk :: "real \<Rightarrow> callback" and dx dy :: "real \<Rightarrow> real"
  assumes step: "\<And>s off. timers s = [(interval s, p, mk off)] \<Longrightarrow> drawable s (imageCounter s)
         \<Longrightarrow> drawable s t \<Longrightarrow> off < E \<Longrightarrow>
         fire (interval s) 0 s =
           s\<lparr>ctx := (ctx s)\<lparr>calls := tickCalls (nat (imageCounter s)) (nat t) (dx off) (dy off)
                                      ex ey W H (ctx s) @ calls (ctx s)\<rparr>,
             timers := [(interval s, p, mk (off + increment))]\<rparr>"
    and last: "\<And>s off. timers s = [(interval s, p, mk off)] \<Longrightarrow> drawable s (imageCounter s)
         \<Longrightarrow> drawable s t \<Longrightarrow> E \<le> off \<Longrightarrow>
         fire (interval s) 0 s =
           slideDone t
            (s\<lparr>ctx := (ctx s)\<lparr>calls := tickCalls (nat (imageCounter s)) (nat t) (dx off) (dy off)
                                      ex ey W H (ctx s) @ calls (ctx s)\<rparr>,
               timers := [(interval s, p, mk (off + increment))]\<rparr>)"
    and shape: "timers s = [(interval s, p, mk 0)]" "drawable s (imageCounter s)" "drawable s t"
    and E: "0 \<le> E" and k: "k \<le> slideTicksNeeded E"
  shows "liveCallback (ticks k s) =
           (if k < slideTicksNeeded E then Some (mk (increment * real k))
            else if isPlaying (controls s) then Some Autoplay else None)
       \<and> imageCounter (ticks k s) = (if k < slideTicksNeeded E then imageCounter s else t)
       \<and> (\<exists>cs. ctx (ticks k s) = (ctx s)\<lparr>calls := cs @ calls (ctx s)\<rparr>
            \<and> count_list cs Save = k \<and> count_list cs Restore = k
            \<and> concat (map originOf (rev cs)) =
                concat (map (\<lambda>n. [(nat (imageCounter s),
                                     tx (ctx s) + dx (increment * real n),
                                     ty (ctx s) + dy (increment * real n)),
                                    (nat t,
                                     tx (ctx s) + dx (increment * real n) + ex,
                                     ty (ctx s) + dy (increment * real n) + ey)]) [0..<k]))"
proof -
  let ?N = "slideTicksNeeded E"
  let ?orig = "\<lambda>k. concat (map (\<lambda>n. [(nat (imageCounter s),
                                     tx (ctx s) + dx (increment * real n),
                                     ty (ctx s) + dy (increment * real n)),
                                    (nat t,
                                     tx (ctx s) + dx (increment * real n) + ex,
                                     ty (ctx s) + dy (increment * real n) + ey)]) [0..<k])"
  have running: "\<exists>cs. ticks j s =
                s\<lparr>ctx := (ctx s)\<lparr>calls := cs @ calls (ctx s)\<rparr>,
                  timers := [(interval s, p, mk (increment * real j))]\<rparr>
            \<and> count_list cs Save = j \<and> count_list cs Restore = j
            \<and> concat (map originOf (rev cs)) = ?orig j" if "j < ?N" for j
    using slide_running [of p mk t E dx dy ex ey W H s 0 j, OF step shape]
      needed_bounds(2) [OF E that] by simp
  show ?thesis
  proof (cases "k < ?N")
    case True
    from running [OF True] obtain cs where
      "ticks k s = s\<lparr>ctx := (ctx s)\<lparr>calls := cs @ calls (ctx s)\<rparr>,
                  timers := [(interval s, p, mk (increment * real k))]\<rparr>"
      and "count_list cs Save = k" and "count_list cs Restore = k"
      and "concat (map originOf (rev cs)) = ?orig k"
      by blast
    then show ?thesis using True by (auto simp: liveCallback_def)
  next
    case False
    with k have kN: "k = ?N" by simp
    have N1: "1 \<le> ?N" by (rule needed_bounds(1) [OF E])
    then have lt: "?N - 1 < ?N" by simp
    from running [OF lt] obtain cs where
      st: "ticks (?N - 1) s = s\<lparr>ctx := (ctx s)\<lparr>calls := cs @ calls (ctx s)\<rparr>,
                  timers := [(interval s, p, mk (increment * real (?N - 1)))]\<rparr>"
      and c1: "count_list cs Save = ?N - 1" and c2: "count_list cs Restore = ?N - 1"
      and c3: "concat (map originOf (rev cs)) = ?orig (?N - 1)"
      by blast
    let ?s1 = "s\<lparr>ctx := (ctx s)\<lparr>calls := cs @ calls (ctx s)\<rparr>,
                  timers := [(interval s, p, mk (increment * real (?N - 1)))]\<rparr>"
    let ?tc = "tickCalls (nat (imageCounter s)) (nat t) (dx (increment * real (?N - 1)))
                 (dy (increment * real (?N - 1))) ex ey W H (ctx s)"
    let ?s2 = "s\<lparr>ctx := (ctx s)\<lparr>calls := ?tc @ cs @ calls (ctx s)\<rparr>,
                  timers := [(interval s, p, mk (increment * real (?N - 1) + increment))]\<rparr>"
    have "ticks ?N s = ticks 1 (ticks (?N - 1) s)"
      using ticks_add [of "?N - 1" 1 s] N1 by simp
    also have "\<dots> = fire (interval ?s1) 0 ?s1" using st by simp
    also have "\<dots> = slideDone t (?s1\<lparr>ctx := (ctx ?s1)\<lparr>calls :=
                   tickCalls (nat (imageCounter ?s1)) (nat t) (dx (increment * real (?N - 1)))
                     (dy (increment * real (?N - 1))) ex ey W H (ctx ?s1) @ calls (ctx ?s1)\<rparr>,
               timers := [(interval ?s1, p, mk (increment * real (?N - 1) + increment))]\<rparr>)"
      using shape needed_bounds(3) [OF E] by (intro last) simp_all
    also have "\<dots> = slideDone t ?s2" by (simp add: tickCalls_def)
    finally have fin: "ticks ?N s = slideDone t ?s2" .
    have sh2: "timers ?s2 = [(interval ?s2, p, mk (increment * real (?N - 1) + increment))]"
      by simp
    have dr2: "drawable ?s2 t" using shape(3) by simp
    have up: "[0..<?N] = [0..<?N - 1] @ [?N - 1]"
      using N1 by (metis Suc_diff_1 upt_Suc_append zero_le zero_less_one less_le_trans)
    have x1: "ctx (ticks ?N s) = (ctx s)\<lparr>calls := (?tc @ cs) @ calls (ctx s)\<rparr>"
      unfolding fin slideDone_after(1) [OF sh2 dr2] by simp
    have x2: "count_list (?tc @ cs) Save = ?N" "count_list (?tc @ cs) Restore = ?N"
      using c1 c2 N1 by (simp_all add: tickCalls_counts)
    have x3: "concat (map originOf (rev (?tc @ cs))) = ?orig ?N"
      unfolding up using c3 by (simp add: tickCalls_counts)
    have x4: "\<exists>cs. ctx (ticks ?N s) = (ctx s)\<lparr>calls := cs @ calls (ctx s)\<rparr>
            \<and> count_list cs Save = ?N \<and> count_list cs Restore = ?N
            \<and> concat (map originOf (rev cs)) = ?orig ?N"
      using x1 x2 x3 by blast
    have x5: "imageCounter (ticks ?N s) = t"
      unfolding fin by (rule slideDone_after(2) [OF sh2 dr2])
    have x6: "liveCallback (ticks ?N s) = (if isPlaying (controls s) then Some Autoplay else None)"
      unfolding fin slideDone_after(3) [OF sh2 dr2] by simp
    show ?thesis unfolding kN using x4 x5 x6 by simp
  qed
qed

lemma horizontalTick_painted:
  assumes "drawable s (imageCounter s)" and "drawable s t"
  shows "horizontalTick self t W H off fwd s =
           (let s1 = setClosure self (HSlide t W H (off + increment) fwd)
                       (s\<lparr>ctx := (ctx s)\<lparr>calls :=
                          tickCalls (nat (imageCounter s)) (nat t) (if fwd then - off else off) 0
                            (if fwd then W else - W) 0 W H (ctx s) @ calls (ctx s)\<rparr>\<rparr>)
            in if off + increment \<ge> W + increment then slideDone t s1 else s1)"
proof (cases fwd)
  case True
  then show ?thesis
    using assms
    by (simp add: horizontalTick_def Let_def drawImage_drawable [of s] tick_ctx)
next
  case False
  then show ?thesis
    using assms
    by (simp add: horizontalTick_def Let_def drawImage_drawable [of s] tick_ctx)
qed

lemma verticalTick_painted:
  assumes "drawable s (imageCounter s)" and "drawable s t"
  shows "verticalTick self t W H off fwd s =
           (let s1 = setClosure self (VSlide t W H (off + increment) fwd)
                       (s\<lparr>ctx := (ctx s)\<lparr>calls :=
                          tickCalls (nat (imageCounter s)) (nat t) 0 (if fwd then off else - off)
                            0 (if fwd then - H else H) W H (ctx s) @ calls (ctx s)\<rparr>\<rparr>)
            in if off + increment \<ge> H + increment then slideDone t s1 else s1)"
proof (cases fwd)
  case True
  then show ?thesis
    using assms
    by (simp add: verticalTick_def Let_def drawImage_drawable [of s] tick_ctx)
next
  case False
  then show ?thesis
    using assms
    by (simp add: verticalTick_def Let_def drawImage_drawable [of s] tick_ctx)
qed

lemma horizontal_fire:
  assumes "timers s = [(interval s, p, HSlide t W H off fwd)]"
    and "drawable s (imageCounter s)" and "drawable s t"
  shows "off < W \<Longrightarrow> fire (interval s) 0 s =
           s\<lparr>ctx := (ctx s)\<lparr>calls :=
                  tickCalls (nat (imageCounter s)) (nat t) (if fwd then - off else off) 0
                    (if fwd then W else - W) 0 W H (ctx s) @ calls (ctx s)\<rparr>,
             timers := [(interval s, p, HSlide t W H (off + increment) fwd)]\<rparr>"
    and "W \<le> off \<Longrightarrow> fire (interval s) 0 s =
           slideDone t
            (s\<lparr>ctx := (ctx s)\<lparr>calls :=
                  tickCalls (nat (imageCounter s)) (nat t) (if fwd then - off else off) 0
                    (if fwd then W else - W) 0 W H (ctx s) @ calls (ctx s)\<rparr>,
               timers := [(interval s, p, HSlide t W H (off + increment) fwd)]\<rparr>)"
  using assms
  by (simp_all add: fire_live [OF assms(1)] runCallback_def horizontalTick_painted Let_def
      setClosure_def)

lemma vertical_fire:
  assumes "timers s = [(interval s, p, VSlide t W H off fwd)]"
    and "drawable s (imageCounter s)" and "drawable s t"
  shows "off < H \<Longrightarrow> fire (interval s) 0 s =
           s\<lparr>ctx := (ctx s)\<lparr>calls :=
                  tickCalls (nat (imageCounter s)) (nat t) 0 (if fwd then off else - off)
                    0 (if fwd then - H else H) W H (ctx s) @ calls (ctx s)\<rparr>,
             timers := [(interval s, p, VSlide t W H (off + increment) fwd)]\<rparr>"
    and "H \<le> off \<Longrightarrow> fire (interval s) 0 s =
           slideDone t
            (s\<lparr>ctx := (ctx s)\<lparr>calls :=
                  tickCalls (nat (imageCounter s)) (nat t) 0 (if fwd then off else - off)
                    0 (if fwd then - H else H) W H (ctx s) @ calls (ctx s)\<rparr>,
               timers := [(interval s, p, VSlide t W H (off + increment) fwd)]\<rparr>)"
  using assms
  by (simp_all add: fire_live [OF assms(1)] runCallback_def verticalTick_painted Let_def
      setClosure_def)

lemma horizontalTransition_armed:
  assumes "timerDiscipline s"
  shows "timers (horizontalTransition t (-1) (-1) s) =
           [(interval (horizontalTransition t (-1) (-1) s), animationSpeed / increment,
             HSlide t (globalImageWidth s) (globalImageHeight s) 0 (imageCounter s < t))]"
    and "ctx (horizontalTransition t (-1) (-1) s) = save (ctx s)"
    and "images (horizontalTransition t (-1) (-1) s) = images s"
    and "imageCounter (horizontalTransition t (-1) (-1) s) = imageCounter s"
    and "controls (horizontalTransition t (-1) (-1) s) = controls s"
  using clearInterval_held [OF assms]
  by (simp_all add: horizontalTransition_def Let_def setInterval_def clearInterval_def)

lemma verticalTransition_armed:
  assumes "timerDiscipline s"
  shows "timers (verticalTransition t (-1) (-1) s) =
           [(interval (verticalTransition t (-1) (-1) s), animationSpeed / increment,
             VSlide t (globalImageWidth s) (globalImageHeight s) 0 (imageCounter s < t))]"
    and "ctx (verticalTransition t (-1) (-1) s) = save (ctx s)"
    and "images (verticalTransition t (-1) (-1) s) = images s"
    and "imageCounter (verticalTransition t (-1) (-1) s) = imageCounter s"
    and "controls (verticalTransition t (-1) (-1) s) = controls s"
  using clearInterval_held [OF assms]
  by (simp_all add: verticalTransition_def Let_def setInterval_def clearInterval_def)

lemma monotone_upt:
  assumes "\<And>i j. i < j \<Longrightarrow> P (f i) (f j)"
  shows "sorted_wrt P (map f [0..<k])"
  unfolding sorted_wrt_map
  by (rule sorted_wrt_mono_rel [OF _ sorted_wrt_upt]) (simp add: assms)

text \<open>What the log and the stack of the surface hold after \<open>k\<close> ticks of a slide.\<close>

lemma after_save:
  assumes "ctx s1 = save (ctx s)"
    and "ctx s2 = (ctx s1)\<lparr>calls := cs @ calls (ctx s1)\<rparr>"
  shows "saves (ctx s2) = saves (ctx s) + count_list cs Save + 1"
    and "restores (ctx s2) = restores (ctx s) + count_list cs Restore"
    and "length (saved (ctx s2)) = length (saved (ctx s)) + 1"
    and "newOrigins s s2 = concat (map originOf (rev cs))"
  using assms by (simp_all add: saves_def restores_def save_def newOrigins_def origins_def)


lemma horizontal_summary:
  assumes d: "timerDiscipline s" and dr: "drawable s (imageCounter s)" "drawable s t"
    and W: "0 \<le> globalImageWidth s" and k: "k \<le> slideTicksNeeded (globalImageWidth s)"
  shows "sliding (ticks k (horizontalTransition t (-1) (-1) s)) =
           (k < slideTicksNeeded (globalImageWidth s))
       \<and> imageCounter (ticks k (horizontalTransition t (-1) (-1) s)) =
           (if k < slideTicksNeeded (globalImageWidth s) then imageCounter s else t)
       \<and> saves (ctx (ticks k (horizontalTransition t (-1) (-1) s))) = saves (ctx s) + k + 1
       \<and> restores (ctx (ticks k (horizontalTransition t (-1) (-1) s))) = restores (ctx s) + k
       \<and> length (saved (ctx (ticks k (horizontalTransition t (-1) (-1) s)))) =
           length (saved (ctx s)) + 1
       \<and> outgoing (newOrigins s (ticks k (horizontalTransition t (-1) (-1) s))) =
           map (\<lambda>n. (nat (imageCounter s),
                      (if imageCounter s < t then tx (ctx s) - increment * real n
                       else tx (ctx s) + increment * real n),
                      ty (ctx s))) [0..<k]"
proof -
  let ?s1 = "horizontalTransition t (-1) (-1) s"
  let ?W = "globalImageWidth s" and ?H = "globalImageHeight s" and ?fwd = "imageCounter s < t"
  note a = horizontalTransition_armed [OF d, of t]
  have sc: "liveCallback (ticks k ?s1) =
           (if k < slideTicksNeeded ?W then Some (HSlide t ?W ?H (increment * real k) ?fwd)
            else if isPlaying (controls ?s1) then Some Autoplay else None)
       \<and> imageCounter (ticks k ?s1) = (if k < slideTicksNeeded ?W then imageCounter ?s1 else t)
       \<and> (\<exists>cs. ctx (ticks k ?s1) = (ctx ?s1)\<lparr>calls := cs @ calls (ctx ?s1)\<rparr>
            \<and> count_list cs Save = k \<and> count_list cs Restore = k
            \<and> concat (map originOf (rev cs)) =
                concat (map (\<lambda>n. [(nat (imageCounter ?s1),
                                     tx (ctx ?s1) + (if ?fwd then - (increment * real n) else increment * real n),
                                     ty (ctx ?s1) + 0),
                                    (nat t,
                                     tx (ctx ?s1) + (if ?fwd then - (increment * real n) else increment * real n)
                                       + (if ?fwd then ?W else - ?W),
                                     ty (ctx ?s1) + 0 + 0)]) [0..<k]))"
  proof (rule slide_complete [where p = "animationSpeed / increment"
        and mk = "\<lambda>off. HSlide t ?W ?H off ?fwd" and E = ?W and W = ?W and H = ?H
        and dx = "\<lambda>off. if ?fwd then - off else off" and dy = "\<lambda>off. 0"
        and ex = "if ?fwd then ?W else - ?W" and ey = 0])
    show "timers ?s1 = [(interval ?s1, animationSpeed / increment, HSlide t ?W ?H 0 ?fwd)]"
      by (rule a(1))
    show "drawable ?s1 (imageCounter ?s1)" using dr(1) a(3,4) by (simp add: drawable_def)
    show "drawable ?s1 t" using dr(2) a(3) by (simp add: drawable_def)
    show "0 \<le> ?W" by (rule W)
    show "k \<le> slideTicksNeeded ?W" by (rule k)
  qed (rule horizontal_fire; assumption)+
  then obtain cs where lc: "liveCallback (ticks k ?s1) =
           (if k < slideTicksNeeded ?W then Some (HSlide t ?W ?H (increment * real k) ?fwd)
            else if isPlaying (controls ?s1) then Some Autoplay else None)"
    and ic: "imageCounter (ticks k ?s1) = (if k < slideTicksNeeded ?W then imageCounter ?s1 else t)"
    and cx: "ctx (ticks k ?s1) = (ctx ?s1)\<lparr>calls := cs @ calls (ctx ?s1)\<rparr>"
    and c1: "count_list cs Save = k" and c2: "count_list cs Restore = k"
    and c3: "concat (map originOf (rev cs)) =
                concat (map (\<lambda>n. [(nat (imageCounter ?s1),
                                     tx (ctx ?s1) + (if ?fwd then - (increment * real n) else increment * real n),
                                     ty (ctx ?s1) + 0),
                                    (nat t,
                                     tx (ctx ?s1) + (if ?fwd then - (increment * real n) else increment * real n)
                                       + (if ?fwd then ?W else - ?W),
                                     ty (ctx ?s1) + 0 + 0)]) [0..<k])"
    by blast
  note as = after_save [OF a(2) cx]
  have "sliding (ticks k ?s1) = (k < slideTicksNeeded ?W)"
    by (simp add: sliding_def lc)
  moreover have "imageCounter (ticks k ?s1) = (if k < slideTicksNeeded ?W then imageCounter s else t)"
    using ic a(4) by simp
  moreover have "saves (ctx (ticks k ?s1)) = saves (ctx s) + k + 1"
    using as(1) c1 by simp
  moreover have "restores (ctx (ticks k ?s1)) = restores (ctx s) + k"
    using as(2) c2 by simp
  moreover have "length (saved (ctx (ticks k ?s1))) = length (saved (ctx s)) + 1"
    by (rule as(3))
  moreover have "outgoing (newOrigins s (ticks k ?s1)) =
           map (\<lambda>n. (nat (imageCounter s),
                      (if ?fwd then tx (ctx s) - increment * real n
                       else tx (ctx s) + increment * real n),
                      ty (ctx s))) [0..<k]"
    unfolding as(4) c3 outgoing_pairs a(4) a(2) by (simp add: save_def)
  ultimately show ?thesis by blast
qed

lemma vertical_summary:
  assumes d: "timerDiscipline s" and dr: "drawable s (imageCounter s)" "drawable s t"
    and W: "0 \<le> globalImageHeight s" and k: "k \<le> slideTicksNeeded (globalImageHeight s)"
  shows "sliding (ticks k (verticalTransition t (-1) (-1) s)) =
           (k < slideTicksNeeded (globalImageHeight s))
       \<and> imageCounter (ticks k (verticalTransition t (-1) (-1) s)) =
           (if k < slideTicksNeeded (globalImageHeight s) then imageCounter s else t)
       \<and> saves (ctx (ticks k (verticalTransition t (-1) (-1) s))) = saves (ctx s) + k + 1
       \<and> restores (ctx (ticks k (verticalTransition t (-1) (-1) s))) = restores (ctx s) + k
       \<and> length (saved (ctx (ticks k (verticalTransition t (-1) (-1) s)))) =
           length (saved (ctx s)) + 1
       \<and> outgoing (newOrigins s (ticks k (verticalTransition t (-1) (-1) s))) =
           map (\<lambda>n. (nat (imageCounter s),
                      tx (ctx s),
                      (if imageCounter s < t then ty (ctx s) + increment * real n
                       else ty (ctx s) - increment * real n))) [0..<k]"
proof -
  let ?s1 = "verticalTransition t (-1) (-1) s"
  let ?W = "globalImageWidth s" and ?H = "globalImageHeight s" and ?fwd = "imageCounter s < t"
  note a = verticalTransition_armed [OF d, of t]
  have sc: "liveCallback (ticks k ?s1) =
           (if k < slideTicksNeeded ?H then Some (VSlide t ?W ?H (increment * real k) ?fwd)
            else if isPlaying (controls ?s1) then Some Autoplay else None)
       \<and> imageCounter (ticks k ?s1) = (if k < slideTicksNeeded ?H then imageCounter ?s1 else t)
       \<and> (\<exists>cs. ctx (ticks k ?s1) = (ctx ?s1)\<lparr>calls := cs @ calls (ctx ?s1)\<rparr>
            \<and> count_list cs Save = k \<and> count_list cs Restore = k
            \<and> concat (map originOf (rev cs)) =
                concat (map (\<lambda>n. [(nat (imageCounter ?s1),
                                     tx (ctx ?s1) + 0,
                                     ty (ctx ?s1) + (if ?fwd then increment * real n else - (increment * real n))),
                                    (nat t,
                                     tx (ctx ?s1) + 0 + 0,
                                     ty (ctx ?s1) + (if ?fwd then increment * real n else - (increment * real n))
                                       + (if ?fwd then - ?H else ?H))]) [0..<k]))"
  proof (rule slide_complete [where p = "animationSpeed / increment"
        and mk = "\<lambda>off. VSlide t ?W ?H off ?fwd" and E = ?H and W = ?W and H = ?H
        and dx = "\<lambda>off. 0" and dy = "\<lambda>off. if ?fwd then off else - off"
        and ex = 0 and ey = "if ?fwd then - ?H else ?H"])
    show "timers ?s1 = [(interval ?s1, animationSpeed / increment, VSlide t ?W ?H 0 ?fwd)]"
      by (rule a(1))
    show "drawable ?s1 (imageCounter ?s1)" using dr(1) a(3,4) by (simp add: drawable_def)
    show "drawable ?s1 t" using dr(2) a(3) by (simp add: drawable_def)
    show "0 \<le> ?H" by (rule W)
    show "k \<le> slideTicksNeeded ?H" by (rule k)
  qed (rule vertical_fire; assumption)+
  then obtain cs where lc: "liveCallback (ticks k ?s1) =
           (if k < slideTicksNeeded ?H then Some (VSlide t ?W ?H (increment * real k) ?fwd)
            else if isPlaying (controls ?s1) then Some Autoplay else None)"
    and ic: "imageCounter (ticks k ?s1) = (if k < slideTicksNeeded ?H then imageCounter ?s1 else t)"
    and cx: "ctx (ticks k ?s1) = (ctx ?s1)\<lparr>calls := cs @ calls (ctx ?s1)\<rparr>"
    and c1: "count_list cs Save = k" and c2: "count_list cs Restore = k"
    and c3: "concat (map originOf (rev cs)) =
                concat (map (\<lambda>n. [(nat (imageCounter ?s1),
                                     tx (ctx ?s1) + 0,
                                     ty (ctx ?s1) + (if ?fwd then increment * real n else - (increment * real n))),
                                    (nat t,
                                     tx (ctx ?s1) + 0 + 0,
                                     ty (ctx ?s1) + (if ?fwd then increment * real n else - (increment * real n))
                                       + (if ?fwd then - ?H else ?H))]) [0..<k])"
    by blast
  note as = after_save [OF a(2) cx]
  have "sliding (ticks k ?s1) = (k < slideTicksNeeded ?H)"
    by (simp add: sliding_def lc)
  moreover have "imageCounter (ticks k ?s1) = (if k < slideTicksNeeded ?H then imageCounter s else t)"
    using ic a(4) by simp
  moreover have "saves (ctx (ticks k ?s1)) = saves (ctx s) + k + 1"
    using as(1) c1 by simp
  moreover have "restores (ctx (ticks k ?s1)) = restores (ctx s) + k"
    using as(2) c2 by simp
  moreover have "length (saved (ctx (ticks k ?s1))) = length (saved (ctx s)) + 1"
    by (rule as(3))
  moreover have "outgoing (newOrigins s (ticks k ?s1)) =
           map (\<lambda>n. (nat (imageCounter s),
                      tx (ctx s),
                      (if ?fwd then ty (ctx s) + increment * real n
                       else ty (ctx s) - increment * real n))) [0..<k]"
    unfolding as(4) c3 outgoing_pairs a(4) a(2) by (simp add: save_def)
  ultimately show ?thesis by blast
qed



text \<open>
  C7, as the code has it. Take a slide transition to target \<open>t\<close>, both images drawable,
  the canvas of non-negative size. It runs for exactly \<open>slideTicksNeeded extent\<close> ticks,
  that is \<open>\<lceil>(extent + step) / step\<rceil>\<close> with the width (horizontal) or height (vertical)
  as extent: before that its timer is live, after that tick it is not and the counter is
  the target. Each tick paints the outgoing image once. In the horizontal slide its x
  origin strictly decreases when forward and strictly increases when not; in the vertical
  slide its y origin strictly increases when forward (the image is pushed down) and
  strictly decreases when not.
\<close>

theorem slide_origins_and_ticks:
  assumes "timerDiscipline s" and "drawable s (imageCounter s)" and "drawable s t"
    and "0 \<le> globalImageWidth s" and "0 \<le> globalImageHeight s"
    and "kh \<le> slideTicksNeeded (globalImageWidth s)"
    and "kv \<le> slideTicksNeeded (globalImageHeight s)"
  shows "sliding (ticks kh (horizontalTransition t (-1) (-1) s)) =
           (kh < slideTicksNeeded (globalImageWidth s))
       \<and> imageCounter (ticks kh (horizontalTransition t (-1) (-1) s)) =
           (if kh < slideTicksNeeded (globalImageWidth s) then imageCounter s else t)
       \<and> length (outgoing (newOrigins s (ticks kh (horizontalTransition t (-1) (-1) s)))) = kh
       \<and> (if imageCounter s < t then sorted_wrt (>) else sorted_wrt (<))
           (map (fst \<circ> snd)
              (outgoing (newOrigins s (ticks kh (horizontalTransition t (-1) (-1) s)))))
       \<and> sliding (ticks kv (verticalTransition t (-1) (-1) s)) =
           (kv < slideTicksNeeded (globalImageHeight s))
       \<and> imageCounter (ticks kv (verticalTransition t (-1) (-1) s)) =
           (if kv < slideTicksNeeded (globalImageHeight s) then imageCounter s else t)
       \<and> length (outgoing (newOrigins s (ticks kv (verticalTransition t (-1) (-1) s)))) = kv
       \<and> (if imageCounter s < t then sorted_wrt (<) else sorted_wrt (>))
           (map (snd \<circ> snd)
              (outgoing (newOrigins s (ticks kv (verticalTransition t (-1) (-1) s)))))"
proof -
  note h = horizontal_summary [OF assms(1-3) assms(4) assms(6)]
  note v = vertical_summary [OF assms(1-3) assms(5) assms(7)]
  have inc: "increment = 3" by (simp add: increment_def)
  have hs: "(if imageCounter s < t then sorted_wrt (>) else sorted_wrt (<))
           (map (fst \<circ> snd)
              (outgoing (newOrigins s (ticks kh (horizontalTransition t (-1) (-1) s)))))"
    using h by (simp add: comp_def inc monotone_upt)
  have vs: "(if imageCounter s < t then sorted_wrt (<) else sorted_wrt (>))
           (map (snd \<circ> snd)
              (outgoing (newOrigins s (ticks kv (verticalTransition t (-1) (-1) s)))))"
    using v by (simp add: comp_def inc monotone_upt)
  show ?thesis using h v hs vs by simp
qed


theorem slide_origins_and_ticks_witness:
  "timerDiscipline (start threeImages 6 4)
   \<and> drawable (start threeImages 6 4) (imageCounter (start threeImages 6 4))
   \<and> drawable (start threeImages 6 4) 1
   \<and> 0 \<le> globalImageWidth (start threeImages 6 4)
   \<and> 0 \<le> globalImageHeight (start threeImages 6 4)
   \<and> 3 \<le> slideTicksNeeded (globalImageWidth (start threeImages 6 4))
   \<and> 3 \<le> slideTicksNeeded (globalImageHeight (start threeImages 6 4))
   \<and> \<not> sliding (ticks 3 (horizontalTransition 1 (-1) (-1) (start threeImages 6 4)))
   \<and> imageCounter (ticks 3 (horizontalTransition 1 (-1) (-1) (start threeImages 6 4))) = 1
   \<and> sorted_wrt (>)
       (map (fst \<circ> snd)
          (outgoing (newOrigins (start threeImages 6 4)
             (ticks 3 (horizontalTransition 1 (-1) (-1) (start threeImages 6 4))))))
   \<and> \<not> sliding (ticks 3 (verticalTransition 1 (-1) (-1) (start threeImages 6 4)))
   \<and> imageCounter (ticks 3 (verticalTransition 1 (-1) (-1) (start threeImages 6 4))) = 1
   \<and> sorted_wrt (<)
       (map (snd \<circ> snd)
          (outgoing (newOrigins (start threeImages 6 4)
             (ticks 3 (verticalTransition 1 (-1) (-1) (start threeImages 6 4))))))"
proof -
  have h: "timerDiscipline (start threeImages 6 4)
      \<and> drawable (start threeImages 6 4) (imageCounter (start threeImages 6 4))
      \<and> drawable (start threeImages 6 4) 1
      \<and> 0 \<le> globalImageWidth (start threeImages 6 4)
      \<and> 0 \<le> globalImageHeight (start threeImages 6 4)
      \<and> slideTicksNeeded (globalImageWidth (start threeImages 6 4)) = 3
      \<and> slideTicksNeeded (globalImageHeight (start threeImages 6 4)) = 3
      \<and> imageCounter (start threeImages 6 4) < 1"
    by code_simp
  show ?thesis
    using slide_origins_and_ticks [of "start threeImages 6 4" 1 3 3] h by simp
qed

text \<open>
  The claim as stated fails for the vertical slide: going forward from slide 0 to slide
  1, the outgoing image is painted at y = 0, 3, 6, which is not decreasing.
\<close>

theorem slide_origins_and_ticks_counterexample:
  "imageCounter (start threeImages 6 4) < 1
   \<and> map (snd \<circ> snd)
       (outgoing (newOrigins (start threeImages 6 4)
          (ticks 3 (verticalTransition 1 (-1) (-1) (start threeImages 6 4))))) = [0, 3, 6]
   \<and> \<not> sorted_wrt (>)
       (map (snd \<circ> snd)
          (outgoing (newOrigins (start threeImages 6 4)
             (ticks 3 (verticalTransition 1 (-1) (-1) (start threeImages 6 4))))))"
  by code_simp

text \<open>
  A slide tick in which an image cannot be drawn raises before it restores: it saves
  once, restores nothing and changes neither the timer nor the captured offset.
\<close>

lemma drawImage_not_drawable:
  "\<not> drawable s i \<Longrightarrow>
     drawImage (images s) i c =
       Inl (if imageAt (images s) i = None then TypeError else InvalidStateError)"
  by (auto simp: drawable_def drawImage_def split: option.splits)

lemma saves_surface [simp]:
  "saves (save c) = Suc (saves c)" "saves (clearRect w h c) = saves c"
  "saves (translate dx dy c) = saves c" "saves (paint i c) = saves c"
  "restores (save c) = restores c" "restores (clearRect w h c) = restores c"
  "restores (translate dx dy c) = restores c" "restores (paint i c) = restores c"
  by (simp_all add: saves_def restores_def save_def clearRect_def translate_def paint_def)

lemma horizontal_fault_tick:
  assumes "timers s = [(interval s, p, HSlide t W H off fwd)]"
    and "\<not> (drawable s (imageCounter s) \<and> drawable s t)"
  shows "timers (fire (interval s) r s) = timers s \<and> interval (fire (interval s) r s) = interval s
       \<and> images (fire (interval s) r s) = images s
       \<and> imageCounter (fire (interval s) r s) = imageCounter s
       \<and> saves (ctx (fire (interval s) r s)) = Suc (saves (ctx s))
       \<and> restores (ctx (fire (interval s) r s)) = restores (ctx s)"
proof (cases "drawable s (imageCounter s)")
  case False
  show ?thesis
    by (cases fwd)
       (simp_all add: fire_live [OF assms(1)] runCallback_def horizontalTick_def Let_def
         raise_def drawImage_not_drawable [OF False])
next
  case True
  with assms(2) have nt: "\<not> drawable s t" by simp
  show ?thesis
    by (cases fwd)
       (simp_all add: fire_live [OF assms(1)] runCallback_def horizontalTick_def Let_def
         raise_def drawImage_not_drawable [OF nt] drawImage_drawable [OF True])
qed

lemma vertical_fault_tick:
  assumes "timers s = [(interval s, p, VSlide t W H off fwd)]"
    and "\<not> (drawable s (imageCounter s) \<and> drawable s t)"
  shows "timers (fire (interval s) r s) = timers s \<and> interval (fire (interval s) r s) = interval s
       \<and> images (fire (interval s) r s) = images s
       \<and> imageCounter (fire (interval s) r s) = imageCounter s
       \<and> saves (ctx (fire (interval s) r s)) = Suc (saves (ctx s))
       \<and> restores (ctx (fire (interval s) r s)) = restores (ctx s)"
proof (cases "drawable s (imageCounter s)")
  case False
  show ?thesis
    by (cases fwd)
       (simp_all add: fire_live [OF assms(1)] runCallback_def verticalTick_def Let_def
         raise_def drawImage_not_drawable [OF False])
next
  case True
  with assms(2) have nt: "\<not> drawable s t" by simp
  show ?thesis
    by (cases fwd)
       (simp_all add: fire_live [OF assms(1)] runCallback_def verticalTick_def Let_def
         raise_def drawImage_not_drawable [OF nt] drawImage_drawable [OF True])
qed

text \<open>
  So a slide with an image that cannot be drawn never ends: every tick saves once more,
  restores nothing and leaves the timer live.
\<close>

lemma slide_fault_stuck:
  assumes "timers s = [(interval s, p, f)]"
    and "f = HSlide t W H off fwd \<or> f = VSlide t W H off fwd"
    and "\<not> (drawable s (imageCounter s) \<and> drawable s t)"
  shows "sliding (ticks k s) \<and> imageCounter (ticks k s) = imageCounter s
       \<and> saves (ctx (ticks k s)) = saves (ctx s) + k
       \<and> restores (ctx (ticks k s)) = restores (ctx s)"
  using assms
proof (induction k arbitrary: s)
  case 0
  then show ?case by (auto simp: sliding_def liveCallback_def)
next
  case (Suc k)
  let ?s1 = "fire (interval s) 0 s"
  have tick: "timers ?s1 = timers s \<and> interval ?s1 = interval s
       \<and> images ?s1 = images s \<and> imageCounter ?s1 = imageCounter s
       \<and> saves (ctx ?s1) = Suc (saves (ctx s))
       \<and> restores (ctx ?s1) = restores (ctx s)"
    using Suc.prems horizontal_fault_tick [of s p t W H off fwd 0]
      vertical_fault_tick [of s p t W H off fwd 0] by blast
  then have sh: "timers ?s1 = [(interval ?s1, p, f)]"
    and nd: "\<not> (drawable ?s1 (imageCounter ?s1) \<and> drawable ?s1 t)"
    using Suc.prems(1,3) by (simp_all add: drawable_def)
  from Suc.IH [OF sh Suc.prems(2) nd] tick show ?case by simp
qed


text \<open>
  C10, as the code has it. Take a slide transition whose two images can be drawn, on a
  canvas of non-negative size. After \<open>k\<close> whole ticks the surface has seen \<open>k + 1\<close> more
  saves and \<open>k\<close> more restores than before the call, and its stack is one entry deeper:
  every tick restores what it saved, the save before the first tick is never restored.
  With \<open>k = slideTicksNeeded extent\<close> the transition is complete: its timer is no longer
  live.
\<close>

theorem slide_save_restore:
  assumes "timerDiscipline s" and "drawable s (imageCounter s)" and "drawable s t"
    and "0 \<le> globalImageWidth s" and "0 \<le> globalImageHeight s"
    and "kh \<le> slideTicksNeeded (globalImageWidth s)"
    and "kv \<le> slideTicksNeeded (globalImageHeight s)"
  shows "saves (ctx (ticks kh (horizontalTransition t (-1) (-1) s))) = saves (ctx s) + kh + 1
       \<and> restores (ctx (ticks kh (horizontalTransition t (-1) (-1) s))) = restores (ctx s) + kh
       \<and> length (saved (ctx (ticks kh (horizontalTransition t (-1) (-1) s)))) =
           length (saved (ctx s)) + 1
       \<and> sliding (ticks kh (horizontalTransition t (-1) (-1) s)) =
           (kh < slideTicksNeeded (globalImageWidth s))
       \<and> saves (ctx (ticks kv (verticalTransition t (-1) (-1) s))) = saves (ctx s) + kv + 1
       \<and> restores (ctx (ticks kv (verticalTransition t (-1) (-1) s))) = restores (ctx s) + kv
       \<and> length (saved (ctx (ticks kv (verticalTransition t (-1) (-1) s)))) =
           length (saved (ctx s)) + 1
       \<and> sliding (ticks kv (verticalTransition t (-1) (-1) s)) =
           (kv < slideTicksNeeded (globalImageHeight s))"
  using horizontal_summary [OF assms(1-3) assms(4) assms(6)]
    vertical_summary [OF assms(1-3) assms(5) assms(7)]
  by simp

theorem slide_save_restore_witness:
  "timerDiscipline (start threeImages 6 4)
   \<and> drawable (start threeImages 6 4) (imageCounter (start threeImages 6 4))
   \<and> drawable (start threeImages 6 4) 1
   \<and> 0 \<le> globalImageWidth (start threeImages 6 4)
   \<and> 0 \<le> globalImageHeight (start threeImages 6 4)
   \<and> 3 \<le> slideTicksNeeded (globalImageWidth (start threeImages 6 4))
   \<and> 3 \<le> slideTicksNeeded (globalImageHeight (start threeImages 6 4))
   \<and> saves (ctx (ticks 3 (horizontalTransition 1 (-1) (-1) (start threeImages 6 4)))) = 4
   \<and> restores (ctx (ticks 3 (horizontalTransition 1 (-1) (-1) (start threeImages 6 4)))) = 3
   \<and> length (saved (ctx (ticks 3 (horizontalTransition 1 (-1) (-1) (start threeImages 6 4))))) = 1
   \<and> \<not> sliding (ticks 3 (horizontalTransition 1 (-1) (-1) (start threeImages 6 4)))
   \<and> saves (ctx (ticks 3 (verticalTransition 1 (-1) (-1) (start threeImages 6 4)))) = 4
   \<and> restores (ctx (ticks 3 (verticalTransition 1 (-1) (-1) (start threeImages 6 4)))) = 3
   \<and> length (saved (ctx (ticks 3 (verticalTransition 1 (-1) (-1) (start threeImages 6 4))))) = 1
   \<and> \<not> sliding (ticks 3 (verticalTransition 1 (-1) (-1) (start threeImages 6 4)))"
proof -
  have h: "timerDiscipline (start threeImages 6 4)
      \<and> drawable (start threeImages 6 4) (imageCounter (start threeImages 6 4))
      \<and> drawable (start threeImages 6 4) 1
      \<and> 0 \<le> globalImageWidth (start threeImages 6 4)
      \<and> 0 \<le> globalImageHeight (start threeImages 6 4)
      \<and> slideTicksNeeded (globalImageWidth (start threeImages 6 4)) = 3
      \<and> slideTicksNeeded (globalImageHeight (start threeImages 6 4)) = 3
      \<and> saves (ctx (start threeImages 6 4)) = 0
      \<and> restores (ctx (start threeImages 6 4)) = 0
      \<and> saved (ctx (start threeImages 6 4)) = []"
    by code_simp
  show ?thesis
    using slide_save_restore [of "start threeImages 6 4" 1 3 3] h by simp
qed

text \<open>
  The claim as stated, for every invocation, fails when an image cannot be drawn. The
  second image failed to load; the slide effect is selected and the next button pressed.
  On this 6 pixel wide canvas a slide takes three ticks. After three ticks the surface has
  seen four saves and no restore, three exceptions have escaped, and the slide's timer is
  still live.
\<close>

theorem slide_save_restore_counterexample:
  "slideTicksNeeded 6 = 3
   \<and> saves (ctx (run [EffectChange ''slide-across'', NextClick] (start brokenSecond 6 4))) = 1
   \<and> restores (ctx (run [EffectChange ''slide-across'', NextClick] (start brokenSecond 6 4))) = 0
   \<and> saves (ctx (run [EffectChange ''slide-across'', NextClick,
                       TimerFires 2 0, TimerFires 2 0, TimerFires 2 0]
                    (start brokenSecond 6 4))) = 4
   \<and> restores (ctx (run [EffectChange ''slide-across'', NextClick,
                          TimerFires 2 0, TimerFires 2 0, TimerFires 2 0]
                       (start brokenSecond 6 4))) = 0
   \<and> sliding (run [EffectChange ''slide-across'', NextClick,
                    TimerFires 2 0, TimerFires 2 0, TimerFires 2 0]
                 (start brokenSecond 6 4))
   \<and> uncaught (run [EffectChange ''slide-across'', NextClick,
                     TimerFires 2 0, TimerFires 2 0, TimerFires 2 0]
                  (start brokenSecond 6 4)) =
       [InvalidStateError, InvalidStateError, InvalidStateError]"
  by code_simp


section \<open>Fade transition\<close>

lemma frames_simps [simp]:
  "frames (paint i c) = frames c @ [(i, globalAlpha c)]"
  "frames (clearRect w h c) = frames c"
  "frames (c\<lparr>globalAlpha := a\<rparr>) = frames c"
  by (simp_all add: frames_def paint_def clearRect_def)

lemma alpha_simps [simp]:
  "globalAlpha (paint i c) = globalAlpha c"
  "globalAlpha (clearRect w h c) = globalAlpha c"
  by (simp_all add: paint_def clearRect_def)

lemma drawSlide_ctx:
  "ctx (drawSlide w h n s) =
     (if drawable s n then paint (nat n) (clearRect w h (ctx s)) else clearRect w h (ctx s))"
  by (auto simp: drawSlide_def drawSlideTry_def drawImage_def drawable_def Let_def
      split: option.splits)

lemma drawSlide_images [simp]: "images (drawSlide w h n s) = images s"
  by (simp add: drawSlide_def drawSlideTry_def drawImage_def Let_def
      split: option.splits sum.splits)

lemma not_fading_stays: "\<not> fading s \<Longrightarrow> fadeTicks n s = s"
  by (cases n) simp_all

lemma fading_live:
  "timers s = [(interval s, p, f)] \<Longrightarrow>
     fading s = (case f of FadeOut t w h \<Rightarrow> True | FadeIn w h \<Rightarrow> True | _ \<Rightarrow> False)"
  "timers s = [(interval s, p, f)] \<Longrightarrow>
     fadingOut s = (case f of FadeOut t w h \<Rightarrow> True | _ \<Rightarrow> False)"
  by (simp_all add: fading_def fadingOut_def liveCallback_def)

text \<open>The four kinds of fade tick.\<close>

lemma fadeOut_draw:
  assumes "timers s = [(interval s, p, FadeOut t w h)]" and "0.1 \<le> globalAlpha (ctx s)"
  shows "timers (fire (interval s) r s) = timers s"
    and "interval (fire (interval s) r s) = interval s"
    and "imageCounter (fire (interval s) r s) = imageCounter s"
    and "globalAlpha (ctx (fire (interval s) r s)) = globalAlpha (ctx s) - fadeStep"
    and "frames (ctx (fire (interval s) r s)) =
           frames (ctx s) @ (if drawable s (imageCounter s)
                             then [(nat (imageCounter s), globalAlpha (ctx s))] else [])"
  using assms
  by (simp_all add: fire_live [OF assms(1)] runCallback_def fadeOutTick_def Let_def
      drawSlide_timers drawSlide_ctx)

lemma fadeOut_switch:
  assumes "timers s = [(interval s, p, FadeOut t w h)]" and "\<not> 0.1 \<le> globalAlpha (ctx s)"
  shows "timers (fire (interval s) r s) =
           [(interval (fire (interval s) r s), animationSpeed, FadeIn w h)]"
    and "imageCounter (fire (interval s) r s) = t"
    and "ctx (fire (interval s) r s) = ctx s"
  using assms
  by (simp_all add: fire_live [OF assms(1)] runCallback_def fadeOutTick_def Let_def
      setInterval_def clearInterval_def)

lemma fadeIn_draw:
  assumes "timers s = [(interval s, p, FadeIn w h)]" and "globalAlpha (ctx s) < 1"
  shows "timers (fire (interval s) r s) = timers s"
    and "interval (fire (interval s) r s) = interval s"
    and "imageCounter (fire (interval s) r s) = imageCounter s"
    and "globalAlpha (ctx (fire (interval s) r s)) = globalAlpha (ctx s) + fadeStep"
    and "frames (ctx (fire (interval s) r s)) =
           frames (ctx s) @ (if drawable s (imageCounter s)
                             then [(nat (imageCounter s), globalAlpha (ctx s))] else [])"
  using assms
  by (simp_all add: fire_live [OF assms(1)] runCallback_def fadeInTick_def Let_def
      drawSlide_timers drawSlide_ctx)

lemma fadeIn_finish:
  assumes "timers s = [(interval s, p, FadeIn w h)]" and "\<not> globalAlpha (ctx s) < 1"
  shows "liveCallback (fire (interval s) r s) =
           (if isPlaying (controls s) then Some Autoplay else None)"
    and "imageCounter (fire (interval s) r s) = imageCounter s"
    and "ctx (fire (interval s) r s) = ctx s"
  using assms
  by (simp_all add: fire_live [OF assms(1)] runCallback_def fadeInTick_def Let_def
      resumeSlideShow_def setInterval_def clearInterval_def liveCallback_def)

lemma fadeIn_finish_not_fading:
  assumes "timers s = [(interval s, p, FadeIn w h)]" and "\<not> globalAlpha (ctx s) < 1"
  shows "\<not> fading (fire (interval s) r s)" and "\<not> fadingOut (fire (interval s) r s)"
  by (simp_all add: fading_def fadingOut_def fadeIn_finish(1) [OF assms])

lemma fadeIn_run:
  assumes "timers s = [(interval s, p, FadeIn w h)]"
  shows "\<exists>ins. frames (ctx (fadeTicks n s)) =
                 frames (ctx s) @ map (\<lambda>a. (nat (imageCounter s), a)) ins
             \<and> sorted_wrt (\<le>) ins \<and> (\<forall>a\<in>set ins. globalAlpha (ctx s) \<le> a)
             \<and> imageCounter (fadeTicks n s) = imageCounter s
             \<and> \<not> fadingOut (fadeTicks n s)
             \<and> globalAlpha (ctx s) \<le> globalAlpha (ctx (fadeTicks n s))"
  using assms
proof (induction n arbitrary: s)
  case 0
  then show ?case
    by (intro exI [of _ "[]"]) (simp add: fading_live)
next
  case (Suc n)
  let ?s1 = "fire (interval s) 0 s"
  have fd: "fading s" using Suc.prems by (simp add: fading_live)
  then have unfold: "fadeTicks (Suc n) s = fadeTicks n ?s1" by simp
  show ?case
  proof (cases "globalAlpha (ctx s) < 1")
    case True
    note d = fadeIn_draw [OF Suc.prems True, of 0]
    have sh: "timers ?s1 = [(interval ?s1, p, FadeIn w h)]"
      using d(1,2) Suc.prems by simp
    from Suc.IH [OF sh] obtain ins where
      fr: "frames (ctx (fadeTicks n ?s1)) =
             frames (ctx ?s1) @ map (\<lambda>a. (nat (imageCounter ?s1), a)) ins"
      and so: "sorted_wrt (\<le>) ins" and lo: "\<forall>a\<in>set ins. globalAlpha (ctx ?s1) \<le> a"
      and ic: "imageCounter (fadeTicks n ?s1) = imageCounter ?s1"
      and nf: "\<not> fadingOut (fadeTicks n ?s1)"
      and al: "globalAlpha (ctx ?s1) \<le> globalAlpha (ctx (fadeTicks n ?s1))"
      by blast
    let ?d = "if drawable s (imageCounter s) then [globalAlpha (ctx s)] else []"
    have step: "globalAlpha (ctx s) \<le> globalAlpha (ctx ?s1)"
      using d(4) by (simp add: fadeStep_def)
    show ?thesis
    proof (intro exI [of _ "?d @ ins"] conjI)
      show "frames (ctx (fadeTicks (Suc n) s)) =
              frames (ctx s) @ map (\<lambda>a. (nat (imageCounter s), a)) (?d @ ins)"
        unfolding unfold fr d(5) d(3) by simp
      show "sorted_wrt (\<le>) (?d @ ins)"
        using so lo step by (auto simp: sorted_wrt_append)
      show "\<forall>a\<in>set (?d @ ins). globalAlpha (ctx s) \<le> a"
        using lo step by auto
      show "imageCounter (fadeTicks (Suc n) s) = imageCounter s"
        unfolding unfold ic d(3) ..
      show "\<not> fadingOut (fadeTicks (Suc n) s)"
        unfolding unfold by (rule nf)
      show "globalAlpha (ctx s) \<le> globalAlpha (ctx (fadeTicks (Suc n) s))"
        unfolding unfold using al step by simp
    qed
  next
    case False
    note f = fadeIn_finish [OF Suc.prems False, of 0]
    note nf = fadeIn_finish_not_fading [OF Suc.prems False, of 0]
    have st: "fadeTicks (Suc n) s = ?s1"
      unfolding unfold by (rule not_fading_stays [OF nf(1)])
    show ?thesis
      unfolding st using f nf by (intro exI [of _ "[]"]) simp
  qed
qed


lemma fadeOut_run:
  assumes "timers s = [(interval s, p, FadeOut t w h)]"
  shows "\<exists>outs ins. frames (ctx (fadeTicks n s)) =
                 frames (ctx s) @ map (\<lambda>a. (nat (imageCounter s), a)) outs
                   @ map (\<lambda>a. (nat t, a)) ins
             \<and> sorted_wrt (\<ge>) outs \<and> (\<forall>a\<in>set outs. 0.1 \<le> a \<and> a \<le> globalAlpha (ctx s))
             \<and> sorted_wrt (\<le>) ins \<and> (\<forall>a\<in>set ins. min (globalAlpha (ctx s)) 0.092 \<le> a)
             \<and> (if fadingOut (fadeTicks n s)
                 then ins = [] \<and> imageCounter (fadeTicks n s) = imageCounter s
                 else imageCounter (fadeTicks n s) = t)
             \<and> min (globalAlpha (ctx s)) 0.092 \<le> globalAlpha (ctx (fadeTicks n s))"
  using assms
proof (induction n arbitrary: s)
  case 0
  then show ?case
    by (intro exI [of _ "[]"]) (simp add: fading_live)
next
  case (Suc n)
  let ?s1 = "fire (interval s) 0 s"
  have fd: "fading s" using Suc.prems by (simp add: fading_live)
  then have unfold: "fadeTicks (Suc n) s = fadeTicks n ?s1" by simp
  show ?case
  proof (cases "0.1 \<le> globalAlpha (ctx s)")
    case True
    note d = fadeOut_draw [OF Suc.prems True, of 0]
    have sh: "timers ?s1 = [(interval ?s1, p, FadeOut t w h)]"
      using d(1,2) Suc.prems by simp
    from Suc.IH [OF sh] obtain outs ins where
      fr: "frames (ctx (fadeTicks n ?s1)) =
             frames (ctx ?s1) @ map (\<lambda>a. (nat (imageCounter ?s1), a)) outs
               @ map (\<lambda>a. (nat t, a)) ins"
      and so: "sorted_wrt (\<ge>) outs"
      and bo: "\<forall>a\<in>set outs. 0.1 \<le> a \<and> a \<le> globalAlpha (ctx ?s1)"
      and si: "sorted_wrt (\<le>) ins"
      and li: "\<forall>a\<in>set ins. min (globalAlpha (ctx ?s1)) 0.092 \<le> a"
      and ph: "if fadingOut (fadeTicks n ?s1)
                 then ins = [] \<and> imageCounter (fadeTicks n ?s1) = imageCounter ?s1
                 else imageCounter (fadeTicks n ?s1) = t"
      and al: "min (globalAlpha (ctx ?s1)) 0.092 \<le> globalAlpha (ctx (fadeTicks n ?s1))"
      by blast
    let ?d = "if drawable s (imageCounter s) then [globalAlpha (ctx s)] else []"
    have a1: "globalAlpha (ctx ?s1) = globalAlpha (ctx s) - 0.008"
      using d(4) by (simp add: fadeStep_def)
    have m: "min (globalAlpha (ctx ?s1)) 0.092 = 0.092" "min (globalAlpha (ctx s)) 0.092 = 0.092"
      using True a1 by simp_all
    show ?thesis
    proof (rule exI [of _ "?d @ outs"], rule exI [of _ ins], intro conjI)
      show "frames (ctx (fadeTicks (Suc n) s)) =
              frames (ctx s) @ map (\<lambda>a. (nat (imageCounter s), a)) (?d @ outs)
                @ map (\<lambda>a. (nat t, a)) ins"
        unfolding unfold fr d(5) d(3) by simp
      show "sorted_wrt (\<ge>) (?d @ outs)"
        using so bo a1 by (auto simp: sorted_wrt_append)
      show "\<forall>a\<in>set (?d @ outs). 0.1 \<le> a \<and> a \<le> globalAlpha (ctx s)"
        using bo a1 True by auto
      show "sorted_wrt (\<le>) ins" by (rule si)
      show "\<forall>a\<in>set ins. min (globalAlpha (ctx s)) 0.092 \<le> a"
        using li unfolding m .
      show "if fadingOut (fadeTicks (Suc n) s)
              then ins = [] \<and> imageCounter (fadeTicks (Suc n) s) = imageCounter s
              else imageCounter (fadeTicks (Suc n) s) = t"
        unfolding unfold using ph d(3) by simp
      show "min (globalAlpha (ctx s)) 0.092 \<le> globalAlpha (ctx (fadeTicks (Suc n) s))"
        unfolding unfold using al unfolding m .
    qed
  next
    case False
    note sw = fadeOut_switch [OF Suc.prems False, of 0]
    from fadeIn_run [OF sw(1), of n] obtain ins where
      fr: "frames (ctx (fadeTicks n ?s1)) =
             frames (ctx ?s1) @ map (\<lambda>a. (nat (imageCounter ?s1), a)) ins"
      and si: "sorted_wrt (\<le>) ins" and li: "\<forall>a\<in>set ins. globalAlpha (ctx ?s1) \<le> a"
      and ic: "imageCounter (fadeTicks n ?s1) = imageCounter ?s1"
      and nf: "\<not> fadingOut (fadeTicks n ?s1)"
      and al: "globalAlpha (ctx ?s1) \<le> globalAlpha (ctx (fadeTicks n ?s1))"
      by blast
    show ?thesis
    proof (rule exI [of _ "[]"], rule exI [of _ ins], intro conjI)
      show "frames (ctx (fadeTicks (Suc n) s)) =
              frames (ctx s) @ map (\<lambda>a. (nat (imageCounter s), a)) []
                @ map (\<lambda>a. (nat t, a)) ins"
        unfolding unfold fr sw(2) sw(3) by simp
      show "sorted_wrt (\<ge>) ([]::real list)" by simp
      show "\<forall>a\<in>set []. 0.1 \<le> a \<and> a \<le> globalAlpha (ctx s)" by simp
      show "sorted_wrt (\<le>) ins" by (rule si)
      show "\<forall>a\<in>set ins. min (globalAlpha (ctx s)) 0.092 \<le> a"
        using li unfolding sw(3) by auto
      show "if fadingOut (fadeTicks (Suc n) s)
              then ins = [] \<and> imageCounter (fadeTicks (Suc n) s) = imageCounter s
              else imageCounter (fadeTicks (Suc n) s) = t"
        unfolding unfold using nf ic sw(2) by simp
      show "min (globalAlpha (ctx s)) 0.092 \<le> globalAlpha (ctx (fadeTicks (Suc n) s))"
        unfolding unfold using al unfolding sw(3) by simp
    qed
  qed
qed

text \<open>The fade ends: each phase needs only finitely many ticks.\<close>

lemma fadeIn_ends:
  assumes "timers s = [(interval s, p, FadeIn w h)]"
    and "1 - globalAlpha (ctx s) \<le> fadeStep * real m"
  shows "\<not> fading (fadeTicks (Suc m) s) \<and> imageCounter (fadeTicks (Suc m) s) = imageCounter s"
  using assms
proof (induction m arbitrary: s)
  case 0
  then have ge: "\<not> globalAlpha (ctx s) < 1" by simp
  have fd: "fading s" using "0.prems"(1) by (simp add: fading_live)
  show ?case
    using fd fadeIn_finish_not_fading(1) [OF "0.prems"(1) ge, of 0]
      fadeIn_finish(2) [OF "0.prems"(1) ge, of 0] by simp
next
  case (Suc m)
  let ?s1 = "fire (interval s) 0 s"
  have fd: "fading s" using Suc.prems(1) by (simp add: fading_live)
  then have unfold: "fadeTicks (Suc (Suc m)) s = fadeTicks (Suc m) ?s1" by simp
  show ?case
  proof (cases "globalAlpha (ctx s) < 1")
    case True
    note d = fadeIn_draw [OF Suc.prems(1) True, of 0]
    have sh: "timers ?s1 = [(interval ?s1, p, FadeIn w h)]"
      using d(1,2) Suc.prems(1) by simp
    have "1 - globalAlpha (ctx ?s1) \<le> fadeStep * real m"
      using Suc.prems(2) d(4) by (simp add: algebra_simps)
    from Suc.IH [OF sh this] show ?thesis
      unfolding unfold using d(3) by simp
  next
    case False
    note nf = fadeIn_finish_not_fading(1) [OF Suc.prems(1) False, of 0]
    show ?thesis
      unfolding unfold not_fading_stays [OF nf]
      using nf fadeIn_finish(2) [OF Suc.prems(1) False, of 0] by simp
  qed
qed

lemma fadeStep_reaches: "\<exists>m. x \<le> fadeStep * real m"
proof -
  obtain m where "x / fadeStep < real m"
    using reals_Archimedean2 by blast
  then have "x < fadeStep * real m"
    by (simp add: fadeStep_def field_simps)
  then show ?thesis by (intro exI [of _ m]) simp
qed

lemma fadeOut_ends:
  assumes "timers s = [(interval s, p, FadeOut t w h)]"
    and "globalAlpha (ctx s) - 0.1 < fadeStep * real m"
  shows "\<exists>n. \<not> fading (fadeTicks n s) \<and> imageCounter (fadeTicks n s) = t"
  using assms
proof (induction m arbitrary: s)
  case 0
  then have lt: "\<not> 0.1 \<le> globalAlpha (ctx s)" by simp
  let ?s1 = "fire (interval s) 0 s"
  note sw = fadeOut_switch [OF "0.prems"(1) lt, of 0]
  have fd: "fading s" using "0.prems"(1) by (simp add: fading_live)
  obtain k where k: "1 - globalAlpha (ctx ?s1) \<le> fadeStep * real k"
    using fadeStep_reaches by blast
  from fadeIn_ends [OF sw(1) k]
  have "\<not> fading (fadeTicks (Suc (Suc k)) s) \<and> imageCounter (fadeTicks (Suc (Suc k)) s) = t"
    using fd sw(2) by simp
  then show ?case by blast
next
  case (Suc m)
  let ?s1 = "fire (interval s) 0 s"
  have fd: "fading s" using Suc.prems(1) by (simp add: fading_live)
  show ?case
  proof (cases "0.1 \<le> globalAlpha (ctx s)")
    case True
    note d = fadeOut_draw [OF Suc.prems(1) True, of 0]
    have sh: "timers ?s1 = [(interval ?s1, p, FadeOut t w h)]"
      using d(1,2) Suc.prems(1) by simp
    have "globalAlpha (ctx ?s1) - 0.1 < fadeStep * real m"
      using Suc.prems(2) d(4) by (simp add: algebra_simps)
    from Suc.IH [OF sh this] obtain n where
      "\<not> fading (fadeTicks n ?s1) \<and> imageCounter (fadeTicks n ?s1) = t" by blast
    then have "\<not> fading (fadeTicks (Suc n) s) \<and> imageCounter (fadeTicks (Suc n) s) = t"
      using fd by simp
    then show ?thesis by blast
  next
    case False
    note sw = fadeOut_switch [OF Suc.prems(1) False, of 0]
    obtain k where k: "1 - globalAlpha (ctx ?s1) \<le> fadeStep * real k"
      using fadeStep_reaches by blast
    from fadeIn_ends [OF sw(1) k]
    have "\<not> fading (fadeTicks (Suc (Suc k)) s) \<and> imageCounter (fadeTicks (Suc (Suc k)) s) = t"
      using fd sw(2) by simp
    then show ?thesis by blast
  qed
qed

lemma fadeTransition_armed:
  assumes "timerDiscipline s"
  shows "timers (fadeTransition t (-1) (-1) s) =
           [(interval (fadeTransition t (-1) (-1) s), animationSpeed,
             FadeOut t (globalImageWidth s) (globalImageHeight s))]"
    and "ctx (fadeTransition t (-1) (-1) s) = ctx s"
    and "imageCounter (fadeTransition t (-1) (-1) s) = imageCounter s"
  using clearInterval_held [OF assms]
  by (simp_all add: fadeTransition_def Let_def setInterval_def clearInterval_def)


text \<open>
  C6. Take a fade to target \<open>t\<close>, started when the opacity is at least 0.092, and let
  its timer fire any number \<open>n\<close> of times. The images painted so far are the current image
  under opacities \<open>outs\<close> followed by the target image under opacities \<open>ins\<close>, where
  \<open>outs\<close> never increases and \<open>ins\<close> never decreases; while the fade-out runs nothing
  of the target has been painted and the counter is unchanged, afterwards the counter is
  the target. No opacity painted, and no opacity the surface is left with, is below
  0.092, so none is 0. The fade ends after finitely many ticks, with the counter at the
  target.
\<close>

theorem fade_frames:
  assumes "timerDiscipline s" and "0.092 \<le> globalAlpha (ctx s)"
  shows "(\<exists>outs ins.
            newFrames s (fadeTicks n (fadeTransition t (-1) (-1) s)) =
              map (\<lambda>a. (nat (imageCounter s), a)) outs @ map (\<lambda>a. (nat t, a)) ins
          \<and> sorted_wrt (\<ge>) outs \<and> sorted_wrt (\<le>) ins
          \<and> (\<forall>a\<in>set (outs @ ins). 0.092 \<le> a)
          \<and> (if fadingOut (fadeTicks n (fadeTransition t (-1) (-1) s))
              then ins = []
                \<and> imageCounter (fadeTicks n (fadeTransition t (-1) (-1) s)) = imageCounter s
              else imageCounter (fadeTicks n (fadeTransition t (-1) (-1) s)) = t))
       \<and> 0.092 \<le> globalAlpha (ctx (fadeTicks n (fadeTransition t (-1) (-1) s)))
       \<and> (\<exists>m. \<not> fading (fadeTicks m (fadeTransition t (-1) (-1) s))
              \<and> imageCounter (fadeTicks m (fadeTransition t (-1) (-1) s)) = t)"
proof -
  let ?s1 = "fadeTransition t (-1) (-1) s"
  note a = fadeTransition_armed [OF assms(1), of t]
  have m: "min (globalAlpha (ctx ?s1)) 0.092 = 0.092"
    using assms(2) a(2) by simp
  from fadeOut_run [OF a(1), of n] obtain outs ins where
    fr: "frames (ctx (fadeTicks n ?s1)) =
           frames (ctx ?s1) @ map (\<lambda>a. (nat (imageCounter ?s1), a)) outs
             @ map (\<lambda>a. (nat t, a)) ins"
    and so: "sorted_wrt (\<ge>) outs"
    and bo: "\<forall>a\<in>set outs. 0.1 \<le> a \<and> a \<le> globalAlpha (ctx ?s1)"
    and si: "sorted_wrt (\<le>) ins"
    and li: "\<forall>a\<in>set ins. min (globalAlpha (ctx ?s1)) 0.092 \<le> a"
    and ph: "if fadingOut (fadeTicks n ?s1)
               then ins = [] \<and> imageCounter (fadeTicks n ?s1) = imageCounter ?s1
               else imageCounter (fadeTicks n ?s1) = t"
    and al: "min (globalAlpha (ctx ?s1)) 0.092 \<le> globalAlpha (ctx (fadeTicks n ?s1))"
    by blast
  have nf: "newFrames s (fadeTicks n ?s1) =
              map (\<lambda>a. (nat (imageCounter s), a)) outs @ map (\<lambda>a. (nat t, a)) ins"
    unfolding newFrames_def fr a(2) a(3) by simp
  have lo: "\<forall>a\<in>set (outs @ ins). 0.092 \<le> a"
    using bo li unfolding m by auto
  have ph': "if fadingOut (fadeTicks n ?s1)
               then ins = [] \<and> imageCounter (fadeTicks n ?s1) = imageCounter s
               else imageCounter (fadeTicks n ?s1) = t"
    using ph a(3) by simp
  have first: "\<exists>outs ins.
            newFrames s (fadeTicks n ?s1) =
              map (\<lambda>a. (nat (imageCounter s), a)) outs @ map (\<lambda>a. (nat t, a)) ins
          \<and> sorted_wrt (\<ge>) outs \<and> sorted_wrt (\<le>) ins
          \<and> (\<forall>a\<in>set (outs @ ins). 0.092 \<le> a)
          \<and> (if fadingOut (fadeTicks n ?s1)
              then ins = [] \<and> imageCounter (fadeTicks n ?s1) = imageCounter s
              else imageCounter (fadeTicks n ?s1) = t)"
    using nf so si lo ph' by blast
  have second: "0.092 \<le> globalAlpha (ctx (fadeTicks n ?s1))"
    using al unfolding m .
  obtain k where "globalAlpha (ctx ?s1) - 0.1 + 1 \<le> fadeStep * real k"
    using fadeStep_reaches by blast
  then have "globalAlpha (ctx ?s1) - 0.1 < fadeStep * real k" by simp
  from fadeOut_ends [OF a(1) this]
  have third: "\<exists>m. \<not> fading (fadeTicks m ?s1) \<and> imageCounter (fadeTicks m ?s1) = t" .
  show ?thesis using first second third by blast
qed


theorem fade_frames_witness:
  "timerDiscipline (start threeImages 640 360)
   \<and> 0.092 \<le> globalAlpha (ctx (start threeImages 640 360))
   \<and> newFrames (start threeImages 640 360)
         (fadeTicks 3 (fadeTransition 1 (-1) (-1) (start threeImages 640 360))) =
       [(0, 1), (0, 0.992), (0, 0.984)]
   \<and> fadingOut (fadeTicks 3 (fadeTransition 1 (-1) (-1) (start threeImages 640 360)))
   \<and> 0.092 \<le> globalAlpha (ctx (fadeTicks 3 (fadeTransition 1 (-1) (-1)
                                              (start threeImages 640 360))))
   \<and> (\<exists>m. \<not> fading (fadeTicks m (fadeTransition 1 (-1) (-1) (start threeImages 640 360)))
          \<and> imageCounter (fadeTicks m (fadeTransition 1 (-1) (-1)
                                         (start threeImages 640 360))) = 1)"
proof -
  have h: "timerDiscipline (start threeImages 640 360)
      \<and> 0.092 \<le> globalAlpha (ctx (start threeImages 640 360))"
    by code_simp
  have f: "newFrames (start threeImages 640 360)
         (fadeTicks 3 (fadeTransition 1 (-1) (-1) (start threeImages 640 360))) =
       [(0, 1), (0, 0.992), (0, 0.984)]
      \<and> fadingOut (fadeTicks 3 (fadeTransition 1 (-1) (-1) (start threeImages 640 360)))"
    by code_simp
  show ?thesis
    using fade_frames [of "start threeImages 640 360" 3 1] h f by blast
qed

section \<open>The states the show reaches\<close>

text \<open>The opacity floor holds from the start and every event keeps it.\<close>

lemma visibleCtx_surface [simp]:
  "visibleCtx (save c) = visibleCtx c"
  "visibleCtx (clearRect w h c) = visibleCtx c"
  "visibleCtx (translate dx dy c) = visibleCtx c"
  "visibleCtx (paint i c) = visibleCtx c"
  by (auto simp: visibleCtx_def save_def clearRect_def translate_def paint_def)

lemma visibleCtx_restore: "visibleCtx c \<Longrightarrow> visibleCtx (restore c)"
  by (auto simp: visibleCtx_def restore_def split: list.splits)

lemma drawImage_visible:
  "drawImage imgs i c = Inr c1 \<Longrightarrow> visibleCtx c1 = visibleCtx c"
  by (auto simp: drawImage_def split: option.splits if_splits)

lemma ctx_unchanged [simp]:
  "ctx (snd (setInterval f p s)) = ctx s"
  "ctx (setClosure self f s) = ctx s"
  "ctx (raise e s) = ctx s"
  "ctx (resumeSlideShow s) = ctx s"
  by (simp_all add: clearInterval_def setInterval_def setClosure_def raise_def
      resumeSlideShow_def Let_def)

lemma drawSlide_visible: "visibleCtx (ctx (drawSlide w h n s)) = visibleCtx (ctx s)"
  by (simp add: drawSlide_ctx)

lemma transitions_ctx [simp]:
  "ctx (fadeTransition n w h s) = ctx s"
  "ctx (horizontalTransition n w h s) = save (ctx s)"
  "ctx (verticalTransition n w h s) = save (ctx s)"
  by (simp_all add: fadeTransition_def horizontalTransition_def verticalTransition_def
      Let_def setInterval_def clearInterval_def)

lemma callDrawingFunction_visible:
  "visibleCtx (ctx (callDrawingFunction n s)) = visibleCtx (ctx s)"
  by (simp add: callDrawingFunction_def drawSlide_visible split: drawing.splits)

lemma fadeOutTick_visible:
  "visibleCtx (ctx s) \<Longrightarrow> visibleCtx (ctx (fadeOutTick n w h s))"
  using drawSlide_visible [of w h "imageCounter s" s]
  by (auto simp: fadeOutTick_def Let_def setInterval_def drawSlide_ctx visibleCtx_def
      fadeStep_def paint_def clearRect_def)

lemma fadeInTick_visible:
  "visibleCtx (ctx s) \<Longrightarrow> visibleCtx (ctx (fadeInTick w h s))"
  by (auto simp: fadeInTick_def Let_def drawSlide_ctx visibleCtx_def
      fadeStep_def paint_def clearRect_def)

lemma slideDone_ctx [simp]: "ctx (slideDone n s) = ctx s"
  by (simp add: slideDone_def Let_def split: option.splits)

lemma horizontalTick_visible:
  "visibleCtx (ctx s) \<Longrightarrow> visibleCtx (ctx (horizontalTick self n w h off fwd s))"
  by (auto simp: horizontalTick_def Let_def visibleCtx_restore drawImage_visible
      split: sum.splits)

lemma verticalTick_visible:
  "visibleCtx (ctx s) \<Longrightarrow> visibleCtx (ctx (verticalTick self n w h off fwd s))"
  by (auto simp: verticalTick_def Let_def visibleCtx_restore drawImage_visible
      split: sum.splits)

lemma fire_visible: "visibleCtx (ctx s) \<Longrightarrow> visibleCtx (ctx (fire h r s))"
  by (simp add: fire_def runCallback_def drawNextSlide_def drawPreviousSlide_def
      drawRandomSlide_def callDrawingFunction_visible fadeOutTick_visible fadeInTick_visible
      horizontalTick_visible verticalTick_visible split: option.splits callback.splits)

lemma stopForManual_ctx [simp]: "ctx (stopForManual s) = ctx s"
  by (simp add: stopForManual_def Let_def)

lemma step_visible: "visibleCtx (ctx s) \<Longrightarrow> visibleCtx (ctx (step e s))"
  by (cases e)
     (simp_all add: fire_visible playCallback_def directionCallback_def randomCallback_def
       nextCallback_def previousCallback_def effectCallback_def keydown_def touchstart_def
       touchend_def drawNextSlide_def drawPreviousSlide_def callDrawingFunction_visible
       Let_def case_prod_beta)

lemma run_visible: "visibleCtx (ctx s) \<Longrightarrow> visibleCtx (ctx (run es s))"
  by (induction es arbitrary: s) (simp_all add: step_visible)

lemma start_visible: "visibleCtx (ctx (start imgs w h))"
  by (simp add: start_def Let_def drawNextSlide_def callDrawingFunction_visible)
     (simp add: fresh_def visibleCtx_def)


text \<open>Nothing disables the play control.\<close>

lemma controls_unchanged [simp]:
  "controls (snd (setInterval f p s)) = controls s"
  "controls (setClosure self f s) = controls s"
  "controls (raise e s) = controls s"
  "controls (resumeSlideShow s) = controls s"
  "controls (fadeTransition n w h s) = controls s"
  "controls (horizontalTransition n w h s) = controls s"
  "controls (verticalTransition n w h s) = controls s"
  by (simp_all add: setInterval_def setClosure_def raise_def resumeSlideShow_def
      fadeTransition_def horizontalTransition_def verticalTransition_def Let_def)

lemma callDrawingFunction_controls [simp]:
  "controls (callDrawingFunction n s) = controls s"
  by (simp add: callDrawingFunction_def split: drawing.splits)

lemma slideDone_controls [simp]: "controls (slideDone n s) = controls s"
  by (simp add: slideDone_def Let_def split: option.splits)

lemma fade_ticks_controls [simp]:
  "controls (fadeOutTick n w h s) = controls s"
  "controls (fadeInTick w h s) = controls s"
  by (simp_all add: fadeOutTick_def fadeInTick_def Let_def setInterval_def)

lemma slide_ticks_controls [simp]:
  "controls (horizontalTick self n w h off fwd s) = controls s"
  "controls (verticalTick self n w h off fwd s) = controls s"
  by (simp_all add: horizontalTick_def verticalTick_def Let_def split: sum.splits)

lemma fire_controls [simp]: "controls (fire h r s) = controls s"
  by (simp add: fire_def runCallback_def drawNextSlide_def drawPreviousSlide_def
      drawRandomSlide_def split: option.splits callback.splits)

lemma playButton_stays_enabled:
  "isEnabled (playButton (snd (togglePlay m))) = isEnabled (playButton m)"
  "isEnabled (playButton (snd (toggleDirection m))) = isEnabled (playButton m)"
  "isEnabled (playButton (snd (toggleRandom m))) = isEnabled (playButton m)"
  by (simp_all add: control_defs Let_def)

lemma step_playButton:
  "isEnabled (playButton (controls (step e s))) = isEnabled (playButton (controls s))"
  by (cases e)
     (simp_all add: playCallback_def directionCallback_def randomCallback_def
       nextCallback_def previousCallback_def effectCallback_def keydown_def touchstart_def
       touchend_def drawNextSlide_def drawPreviousSlide_def stopForManual_def
       playButton_stays_enabled Let_def case_prod_beta)

lemma run_playButton:
  "isEnabled (playButton (controls (run es s))) = isEnabled (playButton (controls s))"
  by (induction es arbitrary: s) (simp_all add: step_playButton)

lemma start_playButton: "isEnabled (playButton (controls (start imgs w h)))"
  by (simp add: start_def Let_def drawNextSlide_def playButton_stays_enabled)
     (simp add: fresh_def setupControls_def newControlElement_def)


text \<open>Every state the show reaches meets the hypotheses of the theorems above.\<close>

lemma reached_ready:
  "timerDiscipline (run es (start imgs w h))
   \<and> 0.092 \<le> globalAlpha (ctx (run es (start imgs w h)))
   \<and> isEnabled (playButton (controls (run es (start imgs w h))))"
  using run_discipline [OF start_discipline, of es imgs w h]
    run_visible [OF start_visible, of es imgs w h]
    start_playButton [of imgs w h]
  by (simp add: run_playButton visibleCtx_def)

end
